theory Spec2Isabelle
  imports Complex_Main
begin

section \<open>Python values, errors and the configuration dictionary\<close>

text \<open>
  The environment of \<^verbatim>\<open>highway_env_v1.py\<close> is modelled by explicit state passing.
  In the reward terms Python floats are idealised as real numbers: rounding, infinities
  and NaN are outside the model there, and an operation whose floating-point result
  would not be a finite number (a division by zero) is an error of the model. In
  \<^verbatim>\<open>elapse\<close>, where the integer part of a floating-point product decides how many ticks
  run, the product and the quotient are rounded as the machine rounds them.
\<close>

datatype pyval =
    PNone
  | PBool bool
  | PInt int
  | PFloat real
  | PStr string
  | PList "pyval list"
  | PDict "(string \<times> pyval) list"

datatype error =
    KeyError string
  | TypeError
  | IndexError
  | ZeroDivisionError
  | AttributeError
  | ValueError
  | NotImplementedError
  | OverflowError

text \<open>Sequencing of fallible steps: the first error ends the call, as a raise does.\<close>

fun bind_err :: "error + 'a \<Rightarrow> ('a \<Rightarrow> error + 'b) \<Rightarrow> error + 'b" where
  "bind_err (Inl e) f = Inl e"
| "bind_err (Inr x) f = f x"

type_synonym config = "string \<rightharpoonup> pyval"

text \<open>\<^verbatim>\<open>config[k]\<close> raises KeyError on a missing key; \<^verbatim>\<open>config.get(k, d)\<close> does not.\<close>

definition getitem :: "config \<Rightarrow> string \<Rightarrow> error + pyval" where
  "getitem c k = (case c k of None \<Rightarrow> Inl (KeyError k) | Some v \<Rightarrow> Inr v)"

definition get_default :: "config \<Rightarrow> string \<Rightarrow> pyval \<Rightarrow> pyval" where
  "get_default c k d = (case c k of None \<Rightarrow> d | Some v \<Rightarrow> v)"

text \<open>A value used as a number in arithmetic with a float; a bool counts as 0 or 1.\<close>

fun num_of :: "pyval \<Rightarrow> error + real" where
  "num_of (PBool b) = Inr (of_bool b)"
| "num_of (PInt i) = Inr (of_int i)"
| "num_of (PFloat x) = Inr x"
| "num_of v = Inl TypeError"

text \<open>A value used as an integer count (a float is not accepted as a repetition count).\<close>

fun int_of :: "pyval \<Rightarrow> error + int" where
  "int_of (PBool b) = Inr (of_bool b)"
| "int_of (PInt i) = Inr i"
| "int_of v = Inl TypeError"

text \<open>Python truthiness, for a value used as a condition.\<close>

fun truthy :: "pyval \<Rightarrow> bool" where
  "truthy PNone = False"
| "truthy (PBool b) = b"
| "truthy (PInt i) = (i \<noteq> 0)"
| "truthy (PFloat x) = (x \<noteq> 0)"
| "truthy (PStr s) = (s \<noteq> [])"
| "truthy (PList xs) = (xs \<noteq> [])"
| "truthy (PDict kvs) = (kvs \<noteq> [])"

text \<open>The two ends \<^verbatim>\<open>x[0]\<close>, \<^verbatim>\<open>x[1]\<close> of a range given as a list.\<close>

fun interval_of :: "pyval \<Rightarrow> error + (real \<times> real)" where
  "interval_of (PList (a # b # rest)) =
     bind_err (num_of a) (\<lambda>lo. bind_err (num_of b) (\<lambda>hi. Inr (lo, hi)))"
| "interval_of (PList short) = Inl IndexError"
| "interval_of v = Inl TypeError"

text \<open>
  Modelled from the spec: \<^verbatim>\<open>utils.lmap\<close> is imported from a module that is not among the
  sources. The spec describes it as the affine rescaling of a value from one interval
  to another by linear interpolation, without clamping. A source interval of length 0
  has no such rescaling: the model fails there.
\<close>

definition lmap :: "real \<Rightarrow> real \<times> real \<Rightarrow> real \<times> real \<Rightarrow> error + real" where
  "lmap v x y =
     (if snd x - fst x = 0 then Inl ZeroDivisionError
      else Inr (fst y + (v - fst x) * (snd y - fst y) / (snd x - fst x)))"

text \<open>\<^verbatim>\<open>np.clip(x, lo, hi)\<close>.\<close>

definition clip :: "real \<Rightarrow> real \<Rightarrow> real \<Rightarrow> real" where
  "clip x lo hi = min (max x lo) hi"

section \<open>Vehicles, the road and the environment\<close>

type_synonym lane_index = "string \<times> string \<times> int"

record lane =
  width :: real
  local_coordinates :: "real \<times> real \<Rightarrow> real \<times> real"

text \<open>
  A vehicle object. \<open>target_lane_index\<close> is \<open>Some\<close> exactly for an instance of
  \<^verbatim>\<open>ControlledVehicle\<close>, the only vehicles that have the attribute. \<open>action\<close> is the
  vehicle's dictionary of control inputs.
\<close>

record vehicle =
  position :: "real \<times> real"
  heading :: real
  speed :: real
  crashed :: bool
  on_road :: bool
  lane_index :: lane_index
  lane :: lane
  target_lane_index :: "lane_index option"
  action :: "string \<rightharpoonup> real"

text \<open>
  The road: its list of vehicles holds references into a store of vehicle objects, so
  that an object which is both in \<^verbatim>\<open>road.vehicles\<close> and in \<^verbatim>\<open>controlled_vehicles\<close> is one
  object. \<open>next_ref\<close> is the next unused reference, \<open>np_random\<close> the state of the random
  generator, \<open>all_side_lanes\<close> the query of the road network.
\<close>

record road =
  vehicles :: "nat list"
  objects :: "nat \<rightharpoonup> vehicle"
  next_ref :: nat
  np_random :: nat
  all_side_lanes :: "lane_index \<Rightarrow> lane_index list"

record env =
  config :: config
  time :: real
  road :: road
  controlled_vehicles :: "nat list"
  delay :: real
  delayed_frequencies :: int
  render_mode :: "string option"

datatype act = Discrete int | Continuous "real list"

text \<open>
  Modelled from the spec: \<^verbatim>\<open>self.vehicle\<close> is a property of the parent class
  \<^verbatim>\<open>AbstractEnv\<close>, which is not among the sources. By the spec the ego vehicle is the
  primary controlled vehicle; with no controlled vehicle there is no object to read.
\<close>

definition ego :: "env \<Rightarrow> error + (nat \<times> vehicle)" where
  "ego e =
     (case controlled_vehicles e of
        [] \<Rightarrow> Inl AttributeError
      | r # rest \<Rightarrow>
          (case objects (road e) r of
             None \<Rightarrow> Inl AttributeError
           | Some v \<Rightarrow> Inr (r, v)))"

definition set_object :: "env \<Rightarrow> nat \<Rightarrow> vehicle \<Rightarrow> env" where
  "set_object e r v = e\<lparr>road := (road e)\<lparr>objects := (objects (road e))(r \<mapsto> v)\<rparr>\<rparr>"

section \<open>The reward terms\<close>

type_synonym terms = "(string \<times> real) list"

text \<open>
  \<^verbatim>\<open>_rewards(self, action)\<close>, lines 187 to 219. The result is the state after the call
  (the call may set the crashed flag of the ego vehicle) and the dictionary of the
  terms, in the order of the dictionary display.
\<close>

definition rewards :: "env \<Rightarrow> act \<Rightarrow> error + (env \<times> terms)" where
  "rewards e a =
     bind_err (ego e) (\<lambda>(r, v).
       let neighbours = all_side_lanes (road e) (lane_index v);
           lane_rank = (case target_lane_index v of
                          Some t \<Rightarrow> snd (snd t)
                        | None \<Rightarrow> snd (snd (lane_index v)));
           forward_speed = speed v * cos (heading v)
       in
       bind_err (getitem (config e) ''reward_speed_range'') (\<lambda>rsr.
       bind_err (interval_of rsr) (\<lambda>x.
       bind_err (lmap forward_speed x (0, 1)) (\<lambda>scaled_speed.
       let heading_penalty = - \<bar>heading v\<bar> / (0.5 * pi);
           clipped = clip scaled_speed 0 1;
           speed_reward = (if forward_speed < 5 then forward_speed / 5 else clipped);
           lane_width = width (lane v);
           lane_pos = snd (local_coordinates (lane v) (position v))
       in
       if lane_width / 2 = 0 then Inl ZeroDivisionError
       else
         let lane_centering = - \<bar>lane_pos\<bar> / (lane_width / 2);
             hit = (\<bar>heading v\<bar> > 0.5 * pi \<or> (scaled_speed < - 0.1 \<and> time e > 1));
             v' = (if hit then v\<lparr>crashed := True\<rparr> else v);
             e' = (if hit then set_object e r v' else e)
         in
         Inr (e',
           [(''collision_reward'', of_bool (crashed v')),
            (''right_lane_reward'',
               of_int lane_rank / of_int (max (int (length neighbours) - 1) 1)),
            (''high_speed_reward'', speed_reward),
            (''on_road_reward'', of_bool (on_road v')),
            (''heading_penalty'', heading_penalty),
            (''lane_centering'', lane_centering * 0.1),
            (''stopping_penalty'', if forward_speed < 2 then - 0.5 else 0)])))))"

section \<open>The scalar reward\<close>

text \<open>A configured weight times a term; a weight that is not a number is a TypeError.\<close>

definition weight_times :: "pyval \<Rightarrow> real \<Rightarrow> error + real" where
  "weight_times w x = bind_err (num_of w) (\<lambda>n. Inr (n * x))"

text \<open>The \<^verbatim>\<open>sum(...)\<close> over \<^verbatim>\<open>rewards.items()\<close>, from the left, starting at 0.\<close>

fun weighted_sum :: "config \<Rightarrow> real \<Rightarrow> terms \<Rightarrow> error + real" where
  "weighted_sum c acc [] = Inr acc"
| "weighted_sum c acc ((name, x) # rest) =
     bind_err (weight_times (get_default c name (PInt 0)) x) (\<lambda>t.
       weighted_sum c (acc + t) rest)"

text \<open>
  \<^verbatim>\<open>HighwayEnvV1._reward\<close>, lines 162 to 185. The call \<^verbatim>\<open>self._rewards(action)\<close> is a
  method lookup on the instance, so the method found is an argument of the model.
  In the file the definition of \<^verbatim>\<open>_rewards\<close> starts in column 0, below the class body,
  so the class has no method of that name of its own: the lookup finds the method of
  the parent class, \<open>inherited_rewards\<close> below.
\<close>

definition reward ::
  "(env \<Rightarrow> act \<Rightarrow> error + (env \<times> terms)) \<Rightarrow> env \<Rightarrow> act \<Rightarrow> error + (env \<times> real)" where
  "reward rewards_method e a =
     bind_err (rewards_method e a) (\<lambda>(e', rs).
     bind_err (weighted_sum (config e') 0 rs) (\<lambda>total.
     bind_err (getitem (config e') ''normalize_reward'') (\<lambda>nr.
     bind_err
       (if truthy nr then
          bind_err (getitem (config e') ''collision_reward'') (\<lambda>cw.
          bind_err (getitem (config e') ''high_speed_reward'') (\<lambda>hw.
          bind_err (getitem (config e') ''right_lane_reward'') (\<lambda>rw.
          bind_err (num_of hw) (\<lambda>h.
          bind_err (num_of rw) (\<lambda>rl.
          bind_err (num_of cw) (\<lambda>lo.
            lmap total (lo, h + rl) (0, 1)))))))
        else Inr total) (\<lambda>mapped.
     (case map_of rs ''on_road_reward'' of
        None \<Rightarrow> Inl (KeyError ''on_road_reward'')
      | Some o_r \<Rightarrow> Inr (e', mapped * o_r))))))"

section \<open>The methods the class inherits\<close>

text \<open>
  The body of the class ends at line 185. \<^verbatim>\<open>_rewards\<close> (line 187, column 0) is a
  function of the module, and the definitions of \<^verbatim>\<open>_is_terminated\<close> (lines 221 to 226)
  and \<^verbatim>\<open>_is_truncated\<close> (lines 228 to 231) stand inside it, after its \<^verbatim>\<open>return\<close>, where
  they are never executed. So on an instance the names \<^verbatim>\<open>_rewards\<close>, \<^verbatim>\<open>_is_terminated\<close> and
  \<^verbatim>\<open>_is_truncated\<close> are the methods of the parent class \<^verbatim>\<open>AbstractEnv\<close>. The parent class
  is not among the sources; the three methods are its abstract hooks, which raise
  \<^verbatim>\<open>NotImplementedError\<close>.
\<close>

definition inherited_rewards :: "env \<Rightarrow> act \<Rightarrow> error + (env \<times> terms)" where
  "inherited_rewards e a = Inl NotImplementedError"

definition is_terminated :: "env \<Rightarrow> error + bool" where
  "is_terminated e = Inl NotImplementedError"

definition is_truncated :: "env \<Rightarrow> error + bool" where
  "is_truncated e = Inl NotImplementedError"

section \<open>The default configuration\<close>

text \<open>
  \<^verbatim>\<open>default_config\<close>, lines 38 to 75: the configuration of the parent class, updated
  with the dictionary of this class. The parent class is not among the sources, so its
  configuration is the argument \<open>base\<close>.
\<close>

definition default_config :: "config \<Rightarrow> config" where
  "default_config base = base ++ map_of
     [(''observation'', PDict
         [(''type'', PStr ''Kinematics''),
          (''features'', PList [PStr ''presence'', PStr ''x'', PStr ''y'', PStr ''vx'',
                                PStr ''vy'', PStr ''heading'']),
          (''vehicles_count'', PInt 15),
          (''features_range'', PDict
             [(''x'', PList [PInt (- 100), PInt 100]),
              (''y'', PList [PInt (- 100), PInt 100]),
              (''vx'', PList [PInt (- 20), PInt 20]),
              (''vy'', PList [PInt (- 20), PInt 20])]),
          (''absolute'', PBool False)]),
      (''action'', PDict
         [(''type'', PStr ''ContinuousAction''),
          (''steering_range'', PList [PFloat (- pi / 3), PFloat (pi / 3)]),
          (''acceleration_range'', PList [PFloat (- 5), PFloat 5])]),
      (''lanes_count'', PInt 4),
      (''vehicles_count'', PInt 20),
      (''controlled_vehicles'', PInt 1),
      (''initial_lane_id'', PNone),
      (''duration'', PInt 40),
      (''ego_spacing'', PInt 2),
      (''vehicles_density'', PFloat 0.7),
      (''collision_reward'', PInt (- 1)),
      (''right_lane_reward'', PFloat 0.1),
      (''high_speed_reward'', PFloat 0.4),
      (''lane_change_reward'', PFloat (- 0.05)),
      (''reward_speed_range'', PList [PInt 10, PInt 25]),
      (''stopping_penalty'', PFloat (- 0.5)),
      (''reverse_reward'', PFloat (- 0.5)),
      (''normalize_reward'', PBool True),
      (''offroad_terminal'', PBool True)]"

section \<open>The collaborators\<close>

text \<open>
  The classes and functions the file calls but does not define are arguments of the
  model. A traffic vehicle class offers \<^verbatim>\<open>create_random(road, spacing)\<close> and, on its
  instances, \<^verbatim>\<open>randomize_behavior()\<close>; both draw from the random generator of the road,
  so they return its new state with the vehicle. None of them can touch the lists of
  vehicles: the file itself does all the appending.
\<close>

record traffic_class =
  tc_create_random :: "road \<Rightarrow> real \<Rightarrow> vehicle \<times> nat"
  tc_randomize_behavior :: "vehicle \<Rightarrow> nat \<Rightarrow> vehicle \<times> nat"

record collaborators =
  class_from_path :: "string \<Rightarrow> traffic_class"
  create_random :: "road \<Rightarrow> real \<Rightarrow> pyval \<Rightarrow> pyval \<Rightarrow> vehicle \<times> nat"
  vehicle_class :: "real \<times> real \<Rightarrow> real \<Rightarrow> real \<Rightarrow> vehicle"
  road_act :: "road \<Rightarrow> road"
  road_step :: "real \<Rightarrow> road \<Rightarrow> road"

section \<open>The delayed-action stepper\<close>

text \<open>
  The arithmetic of the machine. A Python float is a binary64 number, and the
  product and the quotient of two floats are the exact ones rounded to the nearest
  binary64 number, ties to the even significand: \<open>round_double\<close>, with 53 bits of
  significand and the spacing of the subnormal numbers below \<open>2 powi - 1022\<close>. A result
  of magnitude \<open>2 ^ 1024\<close> or more stands for an infinity.
\<close>

definition round_even :: "real \<Rightarrow> int" where
  "round_even x =
     (let n = \<lfloor>x\<rfloor>; r = x - of_int n in
      if r < 1 / 2 then n
      else if 1 / 2 < r then n + 1
      else if even n then n else n + 1)"

definition round_double :: "real \<Rightarrow> real" where
  "round_double x =
     (if x = 0 then 0
      else
        let e = max \<lfloor>log 2 \<bar>x\<bar>\<rfloor> (- 1022);
            ulp = 2 powi (e - 52)
        in of_int (round_even (x / ulp)) * ulp)"

text \<open>
  A number as an operand of a floating-point product: a float as it is, an int or a
  bool converted to the nearest float, with OverflowError for an int too large for
  one.
\<close>

fun float_of :: "pyval \<Rightarrow> error + real" where
  "float_of (PBool b) = Inr (of_bool b)"
| "float_of (PInt i) =
     (let x = round_double (of_int i) in
      if 2 ^ 1024 \<le> \<bar>x\<bar> then Inl OverflowError else Inr x)"
| "float_of (PFloat x) = Inr x"
| "float_of v = Inl TypeError"

text \<open>
  \<^verbatim>\<open>int(x)\<close> on a float truncates towards zero, and raises OverflowError on an
  infinity.
\<close>

definition py_int :: "real \<Rightarrow> int" where
  "py_int x = (if 0 \<le> x then \<lfloor>x\<rfloor> else \<lceil>x\<rceil>)"

text \<open>
  The loop of \<^verbatim>\<open>elapse\<close>, lines 105 to 109, with the number of iterations left. The
  configuration is read again in every iteration, as the source does, and the step of
  the road gets the floating-point quotient \<^verbatim>\<open>1 / simulation_frequency\<close>.
\<close>

fun ticks :: "collaborators \<Rightarrow> nat \<Rightarrow> env \<Rightarrow> error + env" where
  "ticks C 0 e = Inr e"
| "ticks C (Suc n) e =
     (let e1 = e\<lparr>road := road_act C (road e)\<rparr> in
      bind_err (getitem (config e1) ''simulation_frequency'') (\<lambda>fv.
      bind_err (num_of fv) (\<lambda>f.
        if f = 0 then Inl ZeroDivisionError
        else ticks C n (e1\<lparr>road := road_step C (round_double (1 / f)) (road e1)\<rparr>))))"

text \<open>
  \<^verbatim>\<open>elapse\<close>, lines 91 to 109. The delay is a float. The number of ticks is \<^verbatim>\<open>int\<close> of
  the floating-point product of the delay and the frequency; \<^verbatim>\<open>range(n)\<close> is empty for a
  negative \<open>n\<close>.
\<close>

definition elapse :: "collaborators \<Rightarrow> real \<Rightarrow> bool \<Rightarrow> env \<Rightarrow> error + env" where
  "elapse C d reset_steering e =
     (let e1 = e\<lparr>delay := d\<rparr> in
      bind_err
        (if reset_steering then
           bind_err (ego e1) (\<lambda>(r, v).
             Inr (set_object e1 r (v\<lparr>action := (action v)(''steering'' \<mapsto> 0)\<rparr>)))
         else Inr e1) (\<lambda>e2.
      bind_err (getitem (config e2) ''simulation_frequency'') (\<lambda>fv.
      bind_err (float_of fv) (\<lambda>f.
        let product = round_double (delay e2 * f) in
        if 2 ^ 1024 \<le> \<bar>product\<bar> then Inl OverflowError
        else
          let e3 = e2\<lparr>delayed_frequencies := py_int product\<rparr> in
          ticks C (nat (delayed_frequencies e3)) e3))))"

section \<open>The scene populator\<close>

text \<open>
  Modelled from the spec: \<^verbatim>\<open>utils.near_split\<close> is imported from a module that is not
  among the sources. By the spec the traffic vehicles are split as evenly as possible
  across the controlled vehicles, the remainder distributed across the first groups.
  The spec gives no split of a negative count, or across no group: the model fails
  there.
\<close>

definition near_split :: "int \<Rightarrow> int \<Rightarrow> error + nat list" where
  "near_split x num_bins =
     (if x < 0 \<or> num_bins \<le> 0 then Inl ValueError
      else Inr (replicate (nat (x mod num_bins)) (nat (x div num_bins) + 1) @
                replicate (nat (num_bins - x mod num_bins)) (nat (x div num_bins))))"

text \<open>A new object in the store of the road, under a reference not used before.\<close>

definition new_object :: "road \<Rightarrow> vehicle \<Rightarrow> nat \<times> road" where
  "new_object rd v =
     (next_ref rd, rd\<lparr>objects := (objects rd)(next_ref rd \<mapsto> v), next_ref := Suc (next_ref rd)\<rparr>)"

text \<open>The inner loop of \<^verbatim>\<open>_create_vehicles\<close>, lines 155 to 160.\<close>

fun spawn_traffic :: "traffic_class \<Rightarrow> config \<Rightarrow> nat \<Rightarrow> road \<Rightarrow> error + road" where
  "spawn_traffic tc c 0 rd = Inr rd"
| "spawn_traffic tc c (Suc k) rd =
     bind_err (getitem c ''vehicles_density'') (\<lambda>dv.
     bind_err (num_of dv) (\<lambda>density.
       if density = 0 then Inl ZeroDivisionError
       else
         (case tc_create_random tc rd (1 / density) of (v, g) \<Rightarrow>
         (case tc_randomize_behavior tc v g of (v', g') \<Rightarrow>
         (case new_object (rd\<lparr>np_random := g'\<rparr>) v' of (ref, rd') \<Rightarrow>
            spawn_traffic tc c k (rd'\<lparr>vehicles := vehicles rd' @ [ref]\<rparr>))))))"

text \<open>The outer loop of \<^verbatim>\<open>_create_vehicles\<close>, lines 142 to 160.\<close>

fun populate :: "collaborators \<Rightarrow> traffic_class \<Rightarrow> nat list \<Rightarrow> env \<Rightarrow> error + env" where
  "populate C tc [] e = Inr e"
| "populate C tc (others # rest) e =
     bind_err (getitem (config e) ''initial_lane_id'') (\<lambda>lane_id.
     bind_err (getitem (config e) ''ego_spacing'') (\<lambda>spacing.
       (case create_random C (road e) 25 lane_id spacing of (v0, g) \<Rightarrow>
       (case new_object ((road e)\<lparr>np_random := g\<rparr>)
               (vehicle_class C (position v0) (heading v0) (speed v0)) of (ref, rd) \<Rightarrow>
          bind_err
            (spawn_traffic tc (config e) others (rd\<lparr>vehicles := vehicles rd @ [ref]\<rparr>))
            (\<lambda>rd2. populate C tc rest
                     (e\<lparr>controlled_vehicles := controlled_vehicles e @ [ref], road := rd2\<rparr>))))))"

text \<open>\<^verbatim>\<open>_create_vehicles\<close>, lines 134 to 160.\<close>

definition create_vehicles :: "collaborators \<Rightarrow> env \<Rightarrow> error + env" where
  "create_vehicles C e =
     bind_err (getitem (config e) ''other_vehicles_type'') (\<lambda>p.
     bind_err (case p of PStr path \<Rightarrow> Inr (class_from_path C path) | _ \<Rightarrow> Inl TypeError) (\<lambda>tc.
     bind_err (getitem (config e) ''vehicles_count'') (\<lambda>vc.
     bind_err (getitem (config e) ''controlled_vehicles'') (\<lambda>cv.
     bind_err (int_of vc) (\<lambda>x.
     bind_err (int_of cv) (\<lambda>n.
     bind_err (near_split x n) (\<lambda>other_per_controlled.
       populate C tc other_per_controlled (e\<lparr>controlled_vehicles := []\<rparr>))))))))"

text \<open>
  Modelled from the spec: the constructors \<^verbatim>\<open>Road\<close> and
  \<^verbatim>\<open>RoadNetwork.straight_road_network\<close> are not among the sources. By the spec the road
  has a straight network of \<^verbatim>\<open>lanes_count\<close> adjacent lanes, a lane index being the two
  nodes and the position of the lane within the group, and the road is created anew
  at every reset, before it is populated: a new road holds no vehicle.
\<close>

definition straight_side_lanes :: "int \<Rightarrow> lane_index \<Rightarrow> lane_index list" where
  "straight_side_lanes n idx = map (\<lambda>i. (fst idx, fst (snd idx), int i)) [0..<nat n]"

text \<open>\<^verbatim>\<open>_create_road\<close>, lines 117 to 125.\<close>

definition create_road :: "env \<Rightarrow> error + env" where
  "create_road e =
     bind_err (getitem (config e) ''lanes_count'') (\<lambda>lc.
     bind_err (int_of lc) (\<lambda>n.
     bind_err (getitem (config e) ''show_trajectories'') (\<lambda>record_history.
       Inr (e\<lparr>road := \<lparr>vehicles = [], objects = Map.empty, next_ref = 0,
                        np_random = np_random (road e),
                        all_side_lanes = straight_side_lanes n\<rparr>\<rparr>))))"

text \<open>
  \<^verbatim>\<open>_reset\<close>, lines 111 to 115. Rendering draws the scene and changes nothing of the
  state modelled here, so the call of \<^verbatim>\<open>render\<close> is left out.
\<close>

definition reset :: "collaborators \<Rightarrow> env \<Rightarrow> error + env" where
  "reset C e = bind_err (create_road e) (create_vehicles C)"

section \<open>Calls on a running episode\<close>

text \<open>
  The operations on a running episode, each with the state it leaves: the function
  \<^verbatim>\<open>_rewards\<close> of the module called on the environment, and the methods \<^verbatim>\<open>_reward\<close>,
  \<^verbatim>\<open>_is_terminated\<close>, \<^verbatim>\<open>_is_truncated\<close> and \<^verbatim>\<open>elapse\<close> of an instance, as the class
  binds them. Modelled from the spec: the clock \<^verbatim>\<open>self.time\<close> is advanced outside the file
  (the spec's episode clock, read-only to this core); \<open>ClockAdvance\<close> stands for that.
\<close>

datatype call =
    Rewards act
  | Reward act
  | IsTerminated
  | IsTruncated
  | Elapse real bool
  | ClockAdvance real

fun run_call :: "collaborators \<Rightarrow> call \<Rightarrow> env \<Rightarrow> error + env" where
  "run_call C (Rewards a) e = bind_err (rewards e a) (\<lambda>(e', ts). Inr e')"
| "run_call C (Reward a) e = bind_err (reward inherited_rewards e a) (\<lambda>(e', x). Inr e')"
| "run_call C IsTerminated e = bind_err (is_terminated e) (\<lambda>b. Inr e)"
| "run_call C IsTruncated e = bind_err (is_truncated e) (\<lambda>b. Inr e)"
| "run_call C (Elapse d reset_steering) e = elapse C d reset_steering e"
| "run_call C (ClockAdvance dt) e = Inr (e\<lparr>time := time e + dt\<rparr>)"

fun run_calls :: "collaborators \<Rightarrow> call list \<Rightarrow> env \<Rightarrow> error + env" where
  "run_calls C [] e = Inr e"
| "run_calls C (c # cs) e = bind_err (run_call C c e) (run_calls C cs)"

text \<open>The crashed flag of the ego vehicle.\<close>

definition ego_crashed :: "env \<Rightarrow> bool" where
  "ego_crashed e = (case ego e of Inl err \<Rightarrow> False | Inr (r, v) \<Rightarrow> crashed v)"

text \<open>
  What the theorems ask of the physics: \<open>keeps_crashed\<close>, a step of the road clears no
  crashed flag and drops no crashed object; \<open>same_crashed\<close>, it changes no crashed flag.
\<close>

definition keeps_crashed :: "(road \<Rightarrow> road) \<Rightarrow> bool" where
  "keeps_crashed f =
     (\<forall>rd r v. objects rd r = Some v \<and> crashed v \<longrightarrow>
        (\<exists>v'. objects (f rd) r = Some v' \<and> crashed v'))"

definition same_crashed :: "(road \<Rightarrow> road) \<Rightarrow> bool" where
  "same_crashed f =
     (\<forall>rd r. map_option crashed (objects (f rd) r) = map_option crashed (objects rd r))"

section \<open>Auxiliary notions for the statements\<close>

text \<open>The seven names of the reward terms.\<close>

definition term_names :: "string list" where
  "term_names =
     [''collision_reward'', ''right_lane_reward'', ''high_speed_reward'', ''on_road_reward'',
      ''heading_penalty'', ''lane_centering'', ''stopping_penalty'']"

text \<open>
  The references of the groups the populator makes when the next unused reference is
  \<open>s\<close>: for each number of traffic vehicles, the controlled vehicle and then its
  traffic vehicles.
\<close>

fun layout :: "nat \<Rightarrow> nat list \<Rightarrow> (nat \<times> nat list) list" where
  "layout s [] = []"
| "layout s (k # ks) = (s, [Suc s..<Suc s + k]) # layout (Suc s + k) ks"

section \<open>Example states\<close>

definition demo_base :: config where
  "demo_base = map_of
     [(''simulation_frequency'', PInt 10),
      (''show_trajectories'', PBool False),
      (''other_vehicles_type'', PStr ''highway_env.vehicle.behavior.IDMVehicle'')]"

definition demo_lane :: lane where
  "demo_lane = \<lparr>width = 4, local_coordinates = (\<lambda>p. (fst p, snd p - 4))\<rparr>"

definition demo_vehicle :: vehicle where
  "demo_vehicle =
     \<lparr>position = (100, 5), heading = 0, speed = 15, crashed = False, on_road = True,
      lane_index = (''0'', ''1'', 1), lane = demo_lane, target_lane_index = None,
      action = [''steering'' \<mapsto> 1 / 4, ''acceleration'' \<mapsto> 0]\<rparr>"

definition demo_road :: road where
  "demo_road =
     \<lparr>vehicles = [0], objects = [0 \<mapsto> demo_vehicle], next_ref = 1, np_random = 42,
      all_side_lanes = straight_side_lanes 4\<rparr>"

definition demo_env :: env where
  "demo_env =
     \<lparr>config = default_config demo_base, time = 3, road = demo_road,
      controlled_vehicles = [0], delay = 0, delayed_frequencies = 0, render_mode = None\<rparr>"

text \<open>The same state with the ego vehicle turned around, and with it off the road.\<close>

definition demo_spun :: env where
  "demo_spun = set_object demo_env 0 (demo_vehicle\<lparr>heading := 2\<rparr>)"

definition demo_off_road :: env where
  "demo_off_road = set_object demo_env 0 (demo_vehicle\<lparr>on_road := False\<rparr>)"

definition demo_traffic :: traffic_class where
  "demo_traffic =
     \<lparr>tc_create_random =
        (\<lambda>rd spacing. (demo_vehicle\<lparr>position := (spacing * real (np_random rd), 0)\<rparr>,
                       Suc (np_random rd))),
      tc_randomize_behavior = (\<lambda>v g. (v\<lparr>speed := 20 + real (g mod 5)\<rparr>, Suc g))\<rparr>"

definition demo_collaborators :: collaborators where
  "demo_collaborators =
     \<lparr>class_from_path = (\<lambda>path. demo_traffic),
      create_random =
        (\<lambda>rd v lane_id spacing. (demo_vehicle\<lparr>speed := v\<rparr>, Suc (np_random rd))),
      vehicle_class =
        (\<lambda>p h v. demo_vehicle\<lparr>position := p, heading := h, speed := v\<rparr>),
      road_act = (\<lambda>rd. rd),
      road_step =
        (\<lambda>dt rd. rd\<lparr>objects := (\<lambda>r. map_option
            (\<lambda>v. v\<lparr>position := (fst (position v) + speed v * cos (heading v) * dt,
                                 snd (position v) + speed v * sin (heading v) * dt)\<rparr>)
            (objects rd r))\<rparr>)\<rparr>"

text \<open>The same state with the ego vehicle almost at rest.\<close>

definition demo_slow :: env where
  "demo_slow = set_object demo_env 0 (demo_vehicle\<lparr>speed := 1\<rparr>)"



text \<open>The binary64 number that the literal \<^verbatim>\<open>0.3\<close> denotes.\<close>

definition double_0_3 :: real where
  "double_0_3 = 5404319552844595 / 2 ^ 54"

text \<open>The same state configured for three controlled vehicles.\<close>

definition demo_fleet :: env where
  "demo_fleet = demo_env\<lparr>config := (config demo_env)(''controlled_vehicles'' \<mapsto> PInt 3)\<rparr>"

text \<open>
  The weights of the seven terms in the default configuration, over a parent
  configuration that has none of the names \<^verbatim>\<open>heading_penalty\<close>, \<^verbatim>\<open>lane_centering\<close>,
  \<^verbatim>\<open>on_road_reward\<close>.
\<close>

definition demo_weight :: "string \<Rightarrow> real" where
  "demo_weight name =
     (if name = ''collision_reward'' then - 1
      else if name = ''right_lane_reward'' then 0.1
      else if name = ''high_speed_reward'' then 0.4
      else if name = ''stopping_penalty'' then - 0.5
      else 0)"

section \<open>Facts about the reward terms\<close>

text \<open>
  What \<open>rewards\<close> returns when the ego vehicle exists, the configured speed range is a
  list of two different numbers and the lane has a width other than 0.
\<close>

lemma rewards_eq:
  assumes eg: "ego e = Inr (r, v)"
    and rsr: "config e ''reward_speed_range'' = Some rsr"
    and iv: "interval_of rsr = Inr (lo, hi)"
    and ne: "lo \<noteq> hi"
    and wd: "width (lane v) \<noteq> 0"
  shows "rewards e a =
    (let fs = speed v * cos (heading v);
         sc = (fs - lo) / (hi - lo);
         hit = (\<bar>heading v\<bar> > pi / 2 \<or> (sc < - 0.1 \<and> time e > 1));
         v' = v\<lparr>crashed := crashed v \<or> hit\<rparr>
     in Inr (if hit then set_object e r v' else e,
       [(''collision_reward'', of_bool (crashed v')),
        (''right_lane_reward'',
           of_int (case target_lane_index v of Some t \<Rightarrow> snd (snd t) | None \<Rightarrow> snd (snd (lane_index v)))
             / of_int (max (int (length (all_side_lanes (road e) (lane_index v))) - 1) 1)),
        (''high_speed_reward'', if fs < 5 then fs / 5 else clip sc 0 1),
        (''on_road_reward'', of_bool (on_road v)),
        (''heading_penalty'', - \<bar>heading v\<bar> / (pi / 2)),
        (''lane_centering'', 0.1 * (- \<bar>snd (local_coordinates (lane v) (position v))\<bar> / (width (lane v) / 2))),
        (''stopping_penalty'', if fs < 2 then - 0.5 else 0)]))"
  using assms
  by (simp add: rewards_def getitem_def lmap_def Let_def)

lemma ego_set_object:
  "ego e = Inr (r, v) \<Longrightarrow> ego (set_object e r v') = Inr (r, v')"
  by (auto simp: ego_def set_object_def split: list.splits option.splits)

lemma demo_ego: "ego demo_env = Inr (0, demo_vehicle)"
  by (simp add: ego_def demo_env_def demo_road_def)

lemma demo_range: "config demo_env ''reward_speed_range'' = Some (PList [PInt 10, PInt 25])"
  by (simp add: demo_env_def default_config_def)



section \<open>Facts about the scalar reward\<close>

text \<open>The sum of \<open>weighted_sum\<close>, when every weight it reads is a number.\<close>

lemma weighted_sum_eq:
  assumes "\<forall>name \<in> fst ` set ts. num_of (get_default c name (PInt 0)) = Inr (w name)"
  shows "weighted_sum c acc ts = Inr (acc + (\<Sum>(name, x) \<leftarrow> ts. w name * x))"
  using assms
proof (induction ts arbitrary: acc)
  case Nil
  then show ?case by simp
next
  case (Cons p ts)
  obtain name x where p: "p = (name, x)" by (cases p)
  from Cons.prems p have "num_of (get_default c name (PInt 0)) = Inr (w name)"
    by simp
  moreover from Cons.prems
  have "\<forall>name \<in> fst ` set ts. num_of (get_default c name (PInt 0)) = Inr (w name)"
    by simp
  ultimately show ?case
    using Cons.IH p by (simp add: weight_times_def add.assoc)
qed

lemma config_set_object [simp]: "config (set_object e r v) = config e"
  by (simp add: set_object_def)

text \<open>
  Claim C1 says that \<^verbatim>\<open>_reward\<close> returns the weighted sum of the terms of \<^verbatim>\<open>_rewards\<close>,
  normalised when \<^verbatim>\<open>normalize_reward\<close> is set, times the on-road term. What the code does:
  the call \<^verbatim>\<open>self._rewards(action)\<close> of line 169 finds the inherited method, since the
  \<^verbatim>\<open>_rewards\<close> of the file is not a method of the class, and so for every state and every
  action \<^verbatim>\<open>_reward\<close> raises \<^verbatim>\<open>NotImplementedError\<close> at its first statement and returns no
  scalar.
\<close>

theorem reward_raises: "reward inherited_rewards e a = Inl NotImplementedError"
  by (simp add: reward_def inherited_rewards_def)

section \<open>Facts about the example states\<close>

lemma demo_rewards:
  "rewards demo_env a = Inr (demo_env,
     [(''collision_reward'', 0), (''right_lane_reward'', 1 / 3), (''high_speed_reward'', 1 / 3),
      (''on_road_reward'', 1), (''heading_penalty'', 0), (''lane_centering'', - (1 / 20)),
      (''stopping_penalty'', 0)])"
  unfolding rewards_eq [of demo_env 0 demo_vehicle "PList [PInt 10, PInt 25]" 10 25 a,
      OF demo_ego demo_range, simplified demo_vehicle_def demo_lane_def, simplified]
  by (simp add: demo_vehicle_def demo_lane_def demo_env_def demo_road_def straight_side_lanes_def clip_def)

lemma demo_off_road_ego: "ego demo_off_road = Inr (0, demo_vehicle\<lparr>on_road := False\<rparr>)"
  by (simp add: demo_off_road_def ego_set_object demo_ego)

lemma demo_config: "config demo_env = default_config demo_base"
  by (simp add: demo_env_def)

lemma default_config_values:
  "default_config base ''reward_speed_range'' = Some (PList [PInt 10, PInt 25])"
  "default_config base ''normalize_reward'' = Some (PBool True)"
  "default_config base ''collision_reward'' = Some (PInt (- 1))"
  "default_config base ''high_speed_reward'' = Some (PFloat 0.4)"
  "default_config base ''right_lane_reward'' = Some (PFloat 0.1)"
  "default_config base ''stopping_penalty'' = Some (PFloat (- 0.5))"
  "default_config base ''offroad_terminal'' = Some (PBool True)"
  "default_config base ''duration'' = Some (PInt 40)"
  by (simp_all add: default_config_def)

section \<open>Termination and truncation on an instance\<close>

lemma ego_time [simp]: "ego (e\<lparr>time := t\<rparr>) = ego e"
  by (simp add: ego_def split: list.splits)

text \<open>
  Claim C4 says that \<^verbatim>\<open>_is_terminated()\<close> returns true if and only if the ego vehicle is
  crashed, or \<^verbatim>\<open>offroad_terminal\<close> is set and the vehicle is off the road. What the code
  does: lines 221 to 226 are never executed, the class has the method of its parent,
  and the call raises \<^verbatim>\<open>NotImplementedError\<close> in every state; so it does in the example
  state whose ego vehicle is off the road with \<^verbatim>\<open>offroad_terminal\<close> set, where the claim
  gives true.
\<close>

theorem is_terminated_raises:
  "is_terminated e = Inl NotImplementedError \<and>
   ego demo_off_road = Inr (0, demo_vehicle\<lparr>on_road := False\<rparr>) \<and>
   config demo_off_road ''offroad_terminal'' = Some (PBool True) \<and>
   is_terminated demo_off_road \<noteq> Inr True"
  by (simp add: is_terminated_def demo_off_road_ego)
    (simp add: demo_off_road_def demo_config default_config_values)

text \<open>
  Claim C5 says that \<^verbatim>\<open>_is_truncated()\<close> returns true if and only if the elapsed time
  is at least the configured duration. What the code does: lines 228 to 231 are never
  executed, the class has the method of its parent, and the call raises
  \<^verbatim>\<open>NotImplementedError\<close> in every state; so it does in the example state at time 40
  with the duration 40, where the claim gives true.
\<close>

theorem is_truncated_raises:
  "is_truncated e = Inl NotImplementedError \<and>
   config (demo_env\<lparr>time := 40\<rparr>) ''duration'' = Some (PInt 40) \<and>
   time (demo_env\<lparr>time := 40\<rparr>) = 40 \<and>
   is_truncated (demo_env\<lparr>time := 40\<rparr>) \<noteq> Inr True"
  by (simp add: is_truncated_def demo_config default_config_values)

section \<open>The range of the right-lane term\<close>




section \<open>The weights of the default configuration\<close>

lemma default_config_absent:
  assumes "base ''heading_penalty'' = None" "base ''lane_centering'' = None"
    "base ''on_road_reward'' = None"
  shows "default_config base ''heading_penalty'' = None"
    "default_config base ''lane_centering'' = None"
    "default_config base ''on_road_reward'' = None"
  using assms by (simp_all add: default_config_def map_add_def)

lemma default_weights:
  assumes "base ''heading_penalty'' = None" "base ''lane_centering'' = None"
    "base ''on_road_reward'' = None"
  shows "\<forall>name \<in> set term_names.
     num_of (get_default (default_config base) name (PInt 0)) = Inr (demo_weight name)"
  using default_config_absent [OF assms]
  by (simp add: term_names_def get_default_def demo_weight_def default_config_values)

lemma default_weighted_sum:
  assumes "base ''heading_penalty'' = None" "base ''lane_centering'' = None"
    "base ''on_road_reward'' = None"
  shows "weighted_sum (default_config base) 0
       [(''collision_reward'', c), (''right_lane_reward'', rl), (''high_speed_reward'', hs),
        (''on_road_reward'', o_r), (''heading_penalty'', hp), (''lane_centering'', lc),
        (''stopping_penalty'', sp)]
     = Inr (- c + 0.1 * rl + 0.4 * hs - 0.5 * sp)"
proof -
  have "\<forall>name \<in> fst ` set [(''collision_reward'', c), (''right_lane_reward'', rl), (''high_speed_reward'', hs),
        (''on_road_reward'', o_r), (''heading_penalty'', hp), (''lane_centering'', lc),
        (''stopping_penalty'', sp)].
     num_of (get_default (default_config base) name (PInt 0)) = Inr (demo_weight name)"
    using default_weights [OF assms] by (simp add: term_names_def)
  from weighted_sum_eq [OF this, of 0] show ?thesis
    by (simp add: demo_weight_def)
qed

lemma rewards_shape:
  assumes "ego e = Inr (r, v)"
    and "config e ''reward_speed_range'' = Some rsr"
    and "interval_of rsr = Inr (lo, hi)"
    and "lo \<noteq> hi"
    and "width (lane v) \<noteq> 0"
  shows "\<exists>e' c rl hs hp lc.
     rewards e a = Inr (e',
       [(''collision_reward'', c), (''right_lane_reward'', rl), (''high_speed_reward'', hs),
        (''on_road_reward'', if on_road v then 1 else 0), (''heading_penalty'', hp),
        (''lane_centering'', lc),
        (''stopping_penalty'', if speed v * cos (heading v) < 2 then - 0.5 else 0)]) \<and>
     config e' = config e"
  unfolding rewards_eq [OF assms] Let_def by simp

lemma default_reward:
  assumes base: "base ''heading_penalty'' = None" "base ''lane_centering'' = None"
      "base ''on_road_reward'' = None"
    and cfg: "config e' = default_config base"
    and run: "R e a = Inr (e',
       [(''collision_reward'', c), (''right_lane_reward'', rl), (''high_speed_reward'', hs),
        (''on_road_reward'', o_r), (''heading_penalty'', hp), (''lane_centering'', lc),
        (''stopping_penalty'', sp)])"
  shows "reward R e a = Inr (e', (- c + 0.1 * rl + 0.4 * hs - 0.5 * sp + 1) / 1.5 * o_r)"
  unfolding reward_def run
  by (simp add: default_weighted_sum [OF base] cfg getitem_def default_config_values lmap_def
      del: weighted_sum.simps)

text \<open>
  Claim C9. Under the default configuration, over a parent configuration that has
  none of the three names, the weight table has no key \<^verbatim>\<open>heading_penalty\<close>,
  \<^verbatim>\<open>lane_centering\<close> or \<^verbatim>\<open>on_road_reward\<close>, so \<^verbatim>\<open>config.get(name, 0)\<close> gives each of
  the three terms the weight 0. The weighted sum is then a function of the collision,
  right-lane, speed and stopping terms alone, whatever the heading penalty and the
  centering term are, and the on-road term enters the scalar reward only as the last
  factor.
\<close>

theorem default_unweighted_terms:
  assumes "base ''heading_penalty'' = None"
    and "base ''lane_centering'' = None"
    and "base ''on_road_reward'' = None"
    and "config e = default_config base"
    and "ego e = Inr (r, v)"
    and "width (lane v) \<noteq> 0"
  shows "default_config base ''heading_penalty'' = None \<and>
    default_config base ''lane_centering'' = None \<and>
    default_config base ''on_road_reward'' = None \<and>
    get_default (config e) ''heading_penalty'' (PInt 0) = PInt 0 \<and>
    get_default (config e) ''lane_centering'' (PInt 0) = PInt 0 \<and>
    get_default (config e) ''on_road_reward'' (PInt 0) = PInt 0 \<and>
    (\<forall>c rl hs o_r hp lc sp.
       weighted_sum (config e) 0
         [(''collision_reward'', c), (''right_lane_reward'', rl), (''high_speed_reward'', hs),
          (''on_road_reward'', o_r), (''heading_penalty'', hp), (''lane_centering'', lc),
          (''stopping_penalty'', sp)]
       = Inr (- c + 0.1 * rl + 0.4 * hs - 0.5 * sp)) \<and>
    (\<exists>e' c rl hs hp lc sp.
       rewards e a = Inr (e',
         [(''collision_reward'', c), (''right_lane_reward'', rl), (''high_speed_reward'', hs),
          (''on_road_reward'', if on_road v then 1 else 0), (''heading_penalty'', hp),
          (''lane_centering'', lc), (''stopping_penalty'', sp)]) \<and>
       reward rewards e a =
         Inr (e', (- c + 0.1 * rl + 0.4 * hs - 0.5 * sp + 1) / 1.5
                  * (if on_road v then 1 else 0)))"
proof -
  note absent = default_config_absent [OF assms(1-3)]
  have rsr: "config e ''reward_speed_range'' = Some (PList [PInt 10, PInt 25])"
    by (simp add: assms(4) default_config_values)
  have iv: "interval_of (PList [PInt 10, PInt 25]) = Inr (10, 25)" by simp
  have ne: "(10::real) \<noteq> 25" by simp
  from rewards_shape [OF assms(5) rsr iv ne assms(6), of a]
  obtain e' c rl hs hp lc where
    run: "rewards e a = Inr (e',
       [(''collision_reward'', c), (''right_lane_reward'', rl), (''high_speed_reward'', hs),
        (''on_road_reward'', if on_road v then 1 else 0), (''heading_penalty'', hp),
        (''lane_centering'', lc),
        (''stopping_penalty'', if speed v * cos (heading v) < 2 then - 0.5 else 0)])"
    and cfg: "config e' = config e"
    by blast
  have cfg': "config e' = default_config base"
    using cfg assms(4) by simp
  have rw: "reward rewards e a =
      Inr (e', (- c + 0.1 * rl + 0.4 * hs
                 - 0.5 * (if speed v * cos (heading v) < 2 then - 0.5 else 0) + 1) / 1.5
               * (if on_road v then 1 else 0))"
    by (rule default_reward [where R = rewards, OF assms(1-3) cfg' run])
  have last: "\<exists>e' c rl hs hp lc sp.
       rewards e a = Inr (e',
         [(''collision_reward'', c), (''right_lane_reward'', rl), (''high_speed_reward'', hs),
          (''on_road_reward'', if on_road v then 1 else 0), (''heading_penalty'', hp),
          (''lane_centering'', lc), (''stopping_penalty'', sp)]) \<and>
       reward rewards e a =
         Inr (e', (- c + 0.1 * rl + 0.4 * hs - 0.5 * sp + 1) / 1.5
                  * (if on_road v then 1 else 0))"
    using run rw by blast
  have gd: "get_default (config e) ''heading_penalty'' (PInt 0) = PInt 0"
    "get_default (config e) ''lane_centering'' (PInt 0) = PInt 0"
    "get_default (config e) ''on_road_reward'' (PInt 0) = PInt 0"
    by (simp_all add: get_default_def assms(4) absent)
  have ws: "\<forall>c rl hs o_r hp lc sp.
       weighted_sum (config e) 0
         [(''collision_reward'', c), (''right_lane_reward'', rl), (''high_speed_reward'', hs),
          (''on_road_reward'', o_r), (''heading_penalty'', hp), (''lane_centering'', lc),
          (''stopping_penalty'', sp)]
       = Inr (- c + 0.1 * rl + 0.4 * hs - 0.5 * sp)"
    unfolding assms(4) using default_weighted_sum [OF assms(1-3)] by blast
  from absent gd ws last show ?thesis by (intro conjI)
qed

lemma demo_base_absent:
  "demo_base ''heading_penalty'' = None" "demo_base ''lane_centering'' = None"
  "demo_base ''on_road_reward'' = None"
  by (simp_all add: demo_base_def)

lemma demo_width: "width (lane demo_vehicle) \<noteq> 0"
  by (simp add: demo_vehicle_def demo_lane_def)

theorem default_unweighted_terms_witness:
  "demo_base ''heading_penalty'' = None \<and> demo_base ''lane_centering'' = None \<and>
   demo_base ''on_road_reward'' = None \<and> config demo_env = default_config demo_base \<and>
   ego demo_env = Inr (0, demo_vehicle) \<and>
   weighted_sum (config demo_env) 0
     [(''collision_reward'', 0), (''right_lane_reward'', 1 / 3), (''high_speed_reward'', 1 / 3),
      (''on_road_reward'', 1), (''heading_penalty'', - 1), (''lane_centering'', - (1 / 20)),
      (''stopping_penalty'', 0)] = Inr (1 / 6) \<and>
   reward rewards demo_env (Continuous [0, 0]) = Inr (demo_env, 7 / 9)"
proof -
  note t = default_unweighted_terms [OF demo_base_absent demo_config demo_ego demo_width,
      of "Continuous [0, 0]"]
  from t have "\<forall>c rl hs o_r hp lc sp.
       weighted_sum (config demo_env) 0
         [(''collision_reward'', c), (''right_lane_reward'', rl), (''high_speed_reward'', hs),
          (''on_road_reward'', o_r), (''heading_penalty'', hp), (''lane_centering'', lc),
          (''stopping_penalty'', sp)]
       = Inr (- c + 0.1 * rl + 0.4 * hs - 0.5 * sp)"
    by (elim conjE)
  then have s: "weighted_sum (config demo_env) 0
     [(''collision_reward'', 0), (''right_lane_reward'', 1 / 3), (''high_speed_reward'', 1 / 3),
      (''on_road_reward'', 1), (''heading_penalty'', - 1), (''lane_centering'', - (1 / 20)),
      (''stopping_penalty'', 0)] = Inr (1 / 6)"
    by (simp del: weighted_sum.simps)
  from t obtain e' c rl hs hp lc sp where
    run: "rewards demo_env (Continuous [0, 0]) = Inr (e',
         [(''collision_reward'', c), (''right_lane_reward'', rl), (''high_speed_reward'', hs),
          (''on_road_reward'', if on_road demo_vehicle then 1 else 0), (''heading_penalty'', hp),
          (''lane_centering'', lc), (''stopping_penalty'', sp)])"
    and rw: "reward rewards demo_env (Continuous [0, 0]) =
         Inr (e', (- c + 0.1 * rl + 0.4 * hs - 0.5 * sp + 1) / 1.5
                  * (if on_road demo_vehicle then 1 else 0))"
    by blast
  from run have "e' = demo_env \<and> c = 0 \<and> rl = 1 / 3 \<and> hs = 1 / 3 \<and> sp = 0"
    by (simp add: demo_rewards)
  with rw have "reward rewards demo_env (Continuous [0, 0]) = Inr (demo_env, 7 / 9)"
    by (simp add: demo_vehicle_def)
  with s demo_base_absent demo_config demo_ego show ?thesis by simp
qed

text \<open>
  Claim C10. Under the default configuration the weight of the stopping penalty is
  \<open>- 0.5\<close>, and the stopping term is \<open>- 0.5\<close> whenever the forward speed is below 2. Their
  product is exactly \<open>0.25\<close>, a positive amount, and that is what the term adds to
  the weighted sum before normalisation: the configured weight rewards a vehicle that
  is almost at rest.
\<close>

theorem stopping_weight_sign:
  assumes "base ''heading_penalty'' = None"
    and "base ''lane_centering'' = None"
    and "base ''on_road_reward'' = None"
    and "config e = default_config base"
    and "ego e = Inr (r, v)"
    and "width (lane v) \<noteq> 0"
  shows "config e ''stopping_penalty'' = Some (PFloat (- 0.5)) \<and>
    (\<exists>e' c rl hs o_r hp lc sp.
       rewards e a = Inr (e',
         [(''collision_reward'', c), (''right_lane_reward'', rl), (''high_speed_reward'', hs),
          (''on_road_reward'', o_r), (''heading_penalty'', hp), (''lane_centering'', lc),
          (''stopping_penalty'', sp)]) \<and>
       config e' = config e \<and>
       (speed v * cos (heading v) < 2 \<longrightarrow>
          sp = - 0.5 \<and>
          weight_times (PFloat (- 0.5)) sp = Inr 0.25 \<and>
          weighted_sum (config e') 0
            [(''collision_reward'', c), (''right_lane_reward'', rl), (''high_speed_reward'', hs),
             (''on_road_reward'', o_r), (''heading_penalty'', hp), (''lane_centering'', lc),
             (''stopping_penalty'', sp)]
          = Inr (- c + 0.1 * rl + 0.4 * hs + 0.25)))"
proof -
  have rsr: "config e ''reward_speed_range'' = Some (PList [PInt 10, PInt 25])"
    by (simp add: assms(4) default_config_values)
  have iv: "interval_of (PList [PInt 10, PInt 25]) = Inr (10, 25)" by simp
  have ne: "(10::real) \<noteq> 25" by simp
  from rewards_shape [OF assms(5) rsr iv ne assms(6), of a]
  obtain e' c rl hs hp lc where
    run: "rewards e a = Inr (e',
       [(''collision_reward'', c), (''right_lane_reward'', rl), (''high_speed_reward'', hs),
        (''on_road_reward'', if on_road v then 1 else 0), (''heading_penalty'', hp),
        (''lane_centering'', lc),
        (''stopping_penalty'', if speed v * cos (heading v) < 2 then - 0.5 else 0)])"
    and cfg: "config e' = config e"
    by blast
  define sp :: real where "sp = (if speed v * cos (heading v) < 2 then - 0.5 else 0)"
  define o_r :: real where "o_r = (if on_road v then 1 else 0)"
  have ws: "weighted_sum (config e') 0
       [(''collision_reward'', c), (''right_lane_reward'', rl), (''high_speed_reward'', hs),
        (''on_road_reward'', o_r), (''heading_penalty'', hp), (''lane_centering'', lc),
        (''stopping_penalty'', sp)]
     = Inr (- c + 0.1 * rl + 0.4 * hs - 0.5 * sp)"
    unfolding cfg assms(4) by (rule default_weighted_sum [OF assms(1-3)])
  have slow: "speed v * cos (heading v) < 2 \<longrightarrow>
          sp = - 0.5 \<and>
          weight_times (PFloat (- 0.5)) sp = Inr 0.25 \<and>
          weighted_sum (config e') 0
            [(''collision_reward'', c), (''right_lane_reward'', rl), (''high_speed_reward'', hs),
             (''on_road_reward'', o_r), (''heading_penalty'', hp), (''lane_centering'', lc),
             (''stopping_penalty'', sp)]
          = Inr (- c + 0.1 * rl + 0.4 * hs + 0.25)"
  proof
    assume "speed v * cos (heading v) < 2"
    then have v: "sp = - 0.5" by (simp add: sp_def)
    have "weight_times (PFloat (- 0.5)) sp = Inr 0.25"
      by (simp add: v weight_times_def)
    moreover have "- c + 0.1 * rl + 0.4 * hs - 0.5 * sp = - c + 0.1 * rl + 0.4 * hs + 0.25"
      by (simp add: v)
    ultimately show "sp = - 0.5 \<and>
          weight_times (PFloat (- 0.5)) sp = Inr 0.25 \<and>
          weighted_sum (config e') 0
            [(''collision_reward'', c), (''right_lane_reward'', rl), (''high_speed_reward'', hs),
             (''on_road_reward'', o_r), (''heading_penalty'', hp), (''lane_centering'', lc),
             (''stopping_penalty'', sp)]
          = Inr (- c + 0.1 * rl + 0.4 * hs + 0.25)"
      using v ws by simp
  qed
  have run': "rewards e a = Inr (e',
         [(''collision_reward'', c), (''right_lane_reward'', rl), (''high_speed_reward'', hs),
          (''on_road_reward'', o_r), (''heading_penalty'', hp), (''lane_centering'', lc),
          (''stopping_penalty'', sp)])"
    using run by (simp add: sp_def o_r_def)
  have w: "config e ''stopping_penalty'' = Some (PFloat (- 0.5))"
    by (simp add: assms(4) default_config_values)
  from run' cfg slow have "\<exists>e' c rl hs o_r hp lc sp.
       rewards e a = Inr (e',
         [(''collision_reward'', c), (''right_lane_reward'', rl), (''high_speed_reward'', hs),
          (''on_road_reward'', o_r), (''heading_penalty'', hp), (''lane_centering'', lc),
          (''stopping_penalty'', sp)]) \<and>
       config e' = config e \<and>
       (speed v * cos (heading v) < 2 \<longrightarrow>
          sp = - 0.5 \<and>
          weight_times (PFloat (- 0.5)) sp = Inr 0.25 \<and>
          weighted_sum (config e') 0
            [(''collision_reward'', c), (''right_lane_reward'', rl), (''high_speed_reward'', hs),
             (''on_road_reward'', o_r), (''heading_penalty'', hp), (''lane_centering'', lc),
             (''stopping_penalty'', sp)]
          = Inr (- c + 0.1 * rl + 0.4 * hs + 0.25))"
    by blast
  with w show ?thesis by (rule conjI)
qed

lemma demo_slow_ego: "ego demo_slow = Inr (0, demo_vehicle\<lparr>speed := 1\<rparr>)"
  by (simp add: demo_slow_def ego_set_object demo_ego)

lemma demo_slow_config: "config demo_slow = default_config demo_base"
  by (simp add: demo_slow_def demo_config)

theorem stopping_weight_sign_witness:
  "ego demo_slow = Inr (0, demo_vehicle\<lparr>speed := 1\<rparr>) \<and>
   config demo_slow = default_config demo_base \<and>
   config demo_slow ''stopping_penalty'' = Some (PFloat (- (1 / 2))) \<and>
   (\<exists>e' ts. rewards demo_slow (Continuous [0, 0]) = Inr (e', ts) \<and>
      map_of ts ''stopping_penalty'' = Some (- (1 / 2)) \<and>
      weight_times (PFloat (- (1 / 2))) (- (1 / 2)) = Inr (1 / 4))"
proof -
  have wd: "width (lane (demo_vehicle\<lparr>speed := 1\<rparr>)) \<noteq> 0"
    by (simp add: demo_vehicle_def demo_lane_def)
  have fs: "speed (demo_vehicle\<lparr>speed := 1\<rparr>) * cos (heading (demo_vehicle\<lparr>speed := 1\<rparr>)) < 2"
    by (simp add: demo_vehicle_def)
  note t = stopping_weight_sign [OF demo_base_absent demo_slow_config demo_slow_ego wd,
      of "Continuous [0, 0]"]
  from t have w: "config demo_slow ''stopping_penalty'' = Some (PFloat (- (1 / 2)))"
    by simp
  from t fs obtain e' c rl hs o_r hp lc sp where
    run: "rewards demo_slow (Continuous [0, 0]) = Inr (e',
         [(''collision_reward'', c), (''right_lane_reward'', rl), (''high_speed_reward'', hs),
          (''on_road_reward'', o_r), (''heading_penalty'', hp), (''lane_centering'', lc),
          (''stopping_penalty'', sp)])"
    and sp: "sp = - 0.5" and wt: "weight_times (PFloat (- 0.5)) sp = Inr 0.25"
    by blast
  have "\<exists>e' ts. rewards demo_slow (Continuous [0, 0]) = Inr (e', ts) \<and>
      map_of ts ''stopping_penalty'' = Some (- (1 / 2)) \<and>
      weight_times (PFloat (- (1 / 2))) (- (1 / 2)) = Inr (1 / 4)"
    using run sp wt by simp
  with w demo_slow_ego demo_slow_config show ?thesis by simp
qed

section \<open>Facts about the delayed-action stepper\<close>

text \<open>The rounding to a binary64 number, evaluated where the exponent is known.\<close>

lemma round_even_near:
  assumes "\<bar>y - of_int n\<bar> < 1 / 2"
  shows "round_even y = n"
proof (cases "of_int n \<le> y")
  case True
  with assms have "\<lfloor>y\<rfloor> = n" by (auto simp: floor_eq_iff)
  with assms True show ?thesis by (simp add: round_even_def Let_def)
next
  case False
  with assms have f: "\<lfloor>y\<rfloor> = n - 1" by (auto simp: floor_eq_iff)
  with assms False show ?thesis by (auto simp: round_even_def Let_def)
qed

lemma round_double_at:
  assumes "2 powi k \<le> \<bar>x\<bar>" and "\<bar>x\<bar> < 2 powi (k + 1)" and "- 1022 \<le> k"
  shows "round_double x = of_int (round_even (x / 2 powi (k - 52))) * 2 powi (k - 52)"
proof -
  have "(0::real) < 2 powi k" by simp
  with assms(1) have pos: "0 < \<bar>x\<bar>" by linarith
  have a: "(2::real) powr real_of_int k = 2 powi k" by (simp add: powr_real_of_int')
  have b: "(2::real) powr (real_of_int k + 1) = 2 powi (k + 1)"
    using powr_real_of_int' [of "2::real" "k + 1"] by simp
  have "\<lfloor>log 2 \<bar>x\<bar>\<rfloor> = k"
    using assms(1,2) pos by (simp add: floor_log_eq_powr_iff a b)
  with pos assms(3) show ?thesis by (auto simp: round_double_def Let_def max_def)
qed

lemma round_double_eval:
  assumes "2 powi k \<le> \<bar>x\<bar>" and "\<bar>x\<bar> < 2 powi (k + 1)" and "- 1022 \<le> k"
    and "\<bar>x / 2 powi (k - 52) - of_int n\<bar> < 1 / 2"
  shows "round_double x = of_int n * 2 powi (k - 52)"
  unfolding round_double_at [OF assms(1-3)] round_even_near [OF assms(4)] by (rule refl)

lemma round_even_nonneg: "0 \<le> y \<Longrightarrow> 0 \<le> round_even y"
  by (simp add: round_even_def Let_def)

lemma round_double_nonneg: "0 \<le> x \<Longrightarrow> 0 \<le> round_double x"
  by (simp add: round_double_def Let_def round_even_nonneg)

lemma round_double_0: "round_double 0 = 0"
  by (simp add: round_double_def)

lemma round_double_10: "round_double 10 = 10"
  by (subst round_double_eval [of 3 _ "10 * 2 ^ 49"]) (simp_all add: power_int_minus field_simps)

lemma round_double_20: "round_double 20 = 20"
  by (subst round_double_eval [of 4 _ "20 * 2 ^ 48"]) (simp_all add: power_int_minus field_simps)

lemma round_double_tenth: "round_double (1 / 10) = 3602879701896397 / 2 ^ 55"
  by (subst round_double_eval [of "- 4" _ 7205759403792794])
    (simp_all add: power_int_minus field_simps)

text \<open>
  The float nearest to 0.3 is \<open>double_0_3\<close>, a little below 0.3: ten times it is below 3,
  and the floating-point product is 3.
\<close>

lemma round_double_3: "round_double (double_0_3 * 10) = 3"
  unfolding double_0_3_def
  by (subst round_double_eval [of 1 _ 6755399441055744])
    (simp_all add: power_int_minus field_simps)

lemma floor_double_0_3: "\<lfloor>double_0_3 * 10\<rfloor> = 2"
  by (simp add: double_0_3_def floor_eq_iff)

lemma round_double_big: "round_double (2 ^ 1023 * 10) = 2 ^ 1023 * 10"
  by (subst round_double_eval [of 1026 _ "10 * 2 ^ 49"])
    (simp_all add: power_int_minus field_simps)

lemma float_of_10: "float_of (PInt 10) = Inr 10"
  by (simp add: round_double_10)

lemma float_of_zero: "num_of fv = Inr 0 \<Longrightarrow> float_of fv = Inr ff \<Longrightarrow> ff = 0"
  by (cases fv) (auto simp: round_double_def Let_def split: if_splits)

text \<open>The loop runs the step of the road after its act, as often as it is told to.\<close>

lemma ticks_eq:
  assumes "config e ''simulation_frequency'' = Some fv"
    and "num_of fv = Inr f"
    and "f \<noteq> 0 \<or> n = 0"
  shows "ticks C n e =
    Inr (e\<lparr>road := ((road_step C (round_double (1 / f)) \<circ> road_act C) ^^ n) (road e)\<rparr>)"
  using assms
proof (induction n arbitrary: e)
  case 0
  then show ?case by simp
next
  case (Suc n)
  from Suc.prems have f: "f \<noteq> 0" by simp
  let ?e = "e\<lparr>road := road_step C (round_double (1 / f)) (road_act C (road e))\<rparr>"
  have "ticks C (Suc n) e = ticks C n ?e"
    using Suc.prems f by (simp add: getitem_def)
  also have "\<dots> =
      Inr (?e\<lparr>road := ((road_step C (round_double (1 / f)) \<circ> road_act C) ^^ n) (road ?e)\<rparr>)"
    using Suc.prems f by (intro Suc.IH) simp_all
  also have "\<dots> =
      Inr (e\<lparr>road := ((road_step C (round_double (1 / f)) \<circ> road_act C) ^^ Suc n) (road e)\<rparr>)"
    by (simp add: funpow_swap1)
  finally show ?case .
qed

lemma py_int_nat: "nat (py_int x) = nat \<lfloor>x\<rfloor>"
proof (cases "0 \<le> x")
  case True
  then show ?thesis by (simp add: py_int_def)
next
  case False
  then have "x < 0" by simp
  then have "\<lceil>x\<rceil> \<le> 0" "\<lfloor>x\<rfloor> \<le> 0"
    by (simp_all add: ceiling_le_zero floor_le_zero le_floor_iff)
  with False show ?thesis by (simp add: py_int_def)
qed

text \<open>
  \<open>elapse\<close> on a state with the frequency configured: the OverflowError of \<^verbatim>\<open>int\<close> where
  the floating-point product is an infinity, and the iterated state otherwise.
\<close>

lemma elapse_eq:
  assumes "config e ''simulation_frequency'' = Some fv"
    and "num_of fv = Inr f"
    and "float_of fv = Inr ff"
    and "reset_steering \<Longrightarrow> ego e = Inr (r, v)"
    and "e0 = (if reset_steering
               then set_object e r (v\<lparr>action := (action v)(''steering'' \<mapsto> 0)\<rparr>)
               else e)"
  shows "elapse C d reset_steering e =
     (if 2 ^ 1024 \<le> \<bar>round_double (d * ff)\<bar> then Inl OverflowError
      else Inr (e0\<lparr>delay := d, delayed_frequencies := py_int (round_double (d * ff)),
              road := ((road_step C (round_double (1 / f)) \<circ> road_act C)
                         ^^ nat \<lfloor>round_double (d * ff)\<rfloor>) (road e0)\<rparr>))"
proof -
  define p where "p = round_double (d * ff)"
  let ?e2 = "e0\<lparr>delay := d\<rparr>"
  let ?e3 = "?e2\<lparr>delayed_frequencies := py_int p\<rparr>"
  have cfg: "config ?e3 ''simulation_frequency'' = Some fv"
    using assms(1) by (simp add: assms(5))
  have first: "(if reset_steering then
           bind_err (ego (e\<lparr>delay := d\<rparr>)) (\<lambda>(r, v).
             Inr (set_object (e\<lparr>delay := d\<rparr>) r (v\<lparr>action := (action v)(''steering'' \<mapsto> 0)\<rparr>)))
         else Inr (e\<lparr>delay := d\<rparr>)) = Inr ?e2"
  proof (cases reset_steering)
    case True
    then have "ego e = Inr (r, v)" by (rule assms(4))
    then have "ego (e\<lparr>delay := d\<rparr>) = Inr (r, v)"
      by (simp add: ego_def split: list.splits)
    with True show ?thesis by (simp add: assms(5) set_object_def)
  next
    case False
    then show ?thesis by (simp add: assms(5))
  qed
  have run: "elapse C d reset_steering e =
      (if 2 ^ 1024 \<le> \<bar>p\<bar> then Inl OverflowError else ticks C (nat (py_int p)) ?e3)"
    unfolding elapse_def Let_def first p_def
    using assms(1,3) by (simp add: getitem_def assms(5))
  have zero: "f \<noteq> 0 \<or> nat (py_int p) = 0"
  proof (cases "f = 0")
    case True
    with assms(2,3) have "ff = 0" by (simp add: float_of_zero)
    then show ?thesis by (simp add: p_def round_double_0 py_int_def)
  next
    case False
    then show ?thesis by simp
  qed
  have "ticks C (nat (py_int p)) ?e3 =
      Inr (?e3\<lparr>road := ((road_step C (round_double (1 / f)) \<circ> road_act C)
                           ^^ nat (py_int p)) (road ?e3)\<rparr>)"
    using cfg assms(2) zero by (rule ticks_eq)
  with run show ?thesis
    unfolding p_def [symmetric] by (simp add: py_int_nat)
qed

text \<open>
  Claim C8, as amended. For every delay that is not negative and every configured
  simulation frequency \<open>f\<close>, \<open>elapse\<close> raises OverflowError where the floating-point product
  of the delay and the frequency is an infinity; otherwise it runs exactly as many
  iterations as the floor of that floating-point product, each the act of the road
  followed by its step of the floating-point quotient \<open>1 / f\<close>, after setting the
  steering input of the ego vehicle to 0 exactly when \<open>reset_steering\<close> is true. The
  state it leaves is the state so iterated, with the delay and the number of ticks
  stored, and nothing else: no reward and no termination is evaluated, whatever the act
  and the step of the road are. With a delay of 2 and a frequency of 10 the iterations
  are 20. (The number of iterations is 0 where the product is negative; \<open>ff\<close> is the
  frequency as a float, the frequency itself unless it is an int that no float equals.)
\<close>

theorem elapse_ticks:
  assumes "config e ''simulation_frequency'' = Some fv"
    and "num_of fv = Inr f"
    and "float_of fv = Inr ff"
    and "0 \<le> d"
    and "reset_steering \<Longrightarrow> ego e = Inr (r, v)"
    and "e0 = (if reset_steering
               then set_object e r (v\<lparr>action := (action v)(''steering'' \<mapsto> 0)\<rparr>)
               else e)"
  shows "elapse C d reset_steering e =
     (if 2 ^ 1024 \<le> \<bar>round_double (d * ff)\<bar> then Inl OverflowError
      else Inr (e0\<lparr>delay := d, delayed_frequencies := py_int (round_double (d * ff)),
              road := ((road_step C (round_double (1 / f)) \<circ> road_act C)
                         ^^ nat \<lfloor>round_double (d * ff)\<rfloor>) (road e0)\<rparr>)) \<and>
    (0 \<le> ff \<longrightarrow> py_int (round_double (d * ff)) = \<lfloor>round_double (d * ff)\<rfloor>) \<and>
    (d = 2 \<and> ff = 10 \<longrightarrow>
       \<not> 2 ^ 1024 \<le> \<bar>round_double (d * ff)\<bar> \<and> nat \<lfloor>round_double (d * ff)\<rfloor> = 20)"
proof -
  note a = elapse_eq [OF assms(1,2,3,5,6), of C d]
  have b: "0 \<le> ff \<longrightarrow> py_int (round_double (d * ff)) = \<lfloor>round_double (d * ff)\<rfloor>"
  proof
    assume "0 \<le> ff"
    with assms(4) have "0 \<le> d * ff" by simp
    then have "0 \<le> round_double (d * ff)" by (rule round_double_nonneg)
    then show "py_int (round_double (d * ff)) = \<lfloor>round_double (d * ff)\<rfloor>"
      by (simp add: py_int_def)
  qed
  have c: "d = 2 \<and> ff = 10 \<longrightarrow>
       \<not> 2 ^ 1024 \<le> \<bar>round_double (d * ff)\<bar> \<and> nat \<lfloor>round_double (d * ff)\<rfloor> = 20"
    by (auto simp: round_double_20)
  from a b c show ?thesis by (intro conjI)
qed

lemma demo_tick:
  "((road_step demo_collaborators dt \<circ> road_act demo_collaborators) ^^ n) rd =
     rd\<lparr>objects := (\<lambda>r. map_option
        (\<lambda>v. v\<lparr>position := (fst (position v) + real n * (speed v * cos (heading v) * dt),
                             snd (position v) + real n * (speed v * sin (heading v) * dt))\<rparr>)
        (objects rd r))\<rparr>"
proof (induction n)
  case 0
  have "(\<lambda>r. map_option (\<lambda>v. v) (objects rd r)) = objects rd"
    by (simp add: option.map_ident)
  then show ?case by simp
next
  case (Suc n)
  have step: "(road_step demo_collaborators dt \<circ> road_act demo_collaborators) x =
      x\<lparr>objects := (\<lambda>r. map_option
        (\<lambda>v. v\<lparr>position := (fst (position v) + speed v * cos (heading v) * dt,
                             snd (position v) + speed v * sin (heading v) * dt)\<rparr>)
        (objects x r))\<rparr>" for x
    by (simp add: demo_collaborators_def)
  have "((road_step demo_collaborators dt \<circ> road_act demo_collaborators) ^^ Suc n) rd =
      (road_step demo_collaborators dt \<circ> road_act demo_collaborators)
        (((road_step demo_collaborators dt \<circ> road_act demo_collaborators) ^^ n) rd)"
    by simp
  also have "\<dots> = rd\<lparr>objects := (\<lambda>r. map_option
        (\<lambda>v. v\<lparr>position := (fst (position v) + real (Suc n) * (speed v * cos (heading v) * dt),
                             snd (position v) + real (Suc n) * (speed v * sin (heading v) * dt))\<rparr>)
        (objects rd r))\<rparr>"
    unfolding Suc.IH step
    by (simp add: option.map_comp o_def algebra_simps)
  finally show ?case .
qed

lemma demo_frequency: "config demo_env ''simulation_frequency'' = Some (PInt 10)"
  by (simp add: demo_config default_config_def demo_base_def map_add_def)

theorem elapse_ticks_witness:
  "config demo_env ''simulation_frequency'' = Some (PInt 10) \<and>
   ego demo_env = Inr (0, demo_vehicle) \<and>
   (\<exists>e'. elapse demo_collaborators 2 True demo_env = Inr e' \<and>
      delay e' = 2 \<and> delayed_frequencies e' = 20 \<and>
      ego e' = Inr (0, demo_vehicle\<lparr>
                 position := (100 + 20 * (15 * (3602879701896397 / 2 ^ 55)), 5),
                 action := [''steering'' \<mapsto> 0, ''acceleration'' \<mapsto> 0]\<rparr>))"
proof -
  define e0 where
    "e0 = set_object demo_env 0 (demo_vehicle\<lparr>action := (action demo_vehicle)(''steering'' \<mapsto> 0)\<rparr>)"
  define dt :: real where "dt = 3602879701896397 / 2 ^ 55"
  have n: "num_of (PInt 10) = Inr 10" by simp
  have d: "(0::real) \<le> 2" by simp
  have e0': "e0 = (if True
               then set_object demo_env 0 (demo_vehicle\<lparr>action := (action demo_vehicle)(''steering'' \<mapsto> 0)\<rparr>)
               else demo_env)"
    by (simp add: e0_def)
  from elapse_ticks [OF demo_frequency n float_of_10 d demo_ego e0', of demo_collaborators]
  have run: "elapse demo_collaborators 2 True demo_env =
      Inr (e0\<lparr>delay := 2, delayed_frequencies := 20,
              road := ((road_step demo_collaborators dt \<circ> road_act demo_collaborators) ^^ 20) (road e0)\<rparr>)"
    by (simp add: round_double_20 round_double_tenth py_int_def dt_def)
  have act: "(action demo_vehicle)(''steering'' \<mapsto> 0) = [''steering'' \<mapsto> 0, ''acceleration'' \<mapsto> 0]"
    by (auto simp: demo_vehicle_def)
  have eg: "ego (e0\<lparr>delay := 2, delayed_frequencies := 20,
              road := ((road_step demo_collaborators dt \<circ> road_act demo_collaborators) ^^ 20) (road e0)\<rparr>)
      = Inr (0, demo_vehicle\<lparr>position := (100 + 20 * (15 * dt), 5),
                        action := [''steering'' \<mapsto> 0, ''acceleration'' \<mapsto> 0]\<rparr>)"
    unfolding demo_tick act [symmetric]
    by (simp add: ego_def e0_def set_object_def demo_env_def demo_road_def)
      (simp add: demo_vehicle_def)
  from run eg demo_frequency demo_ego show ?thesis
    unfolding dt_def by simp
qed

text \<open>
  Claim C8 as stated, for every delay that is not negative, fails. With the frequency
  10 and the delay \<open>2 ^ 1023\<close>, a float, the floating-point product is an infinity and
  \<open>elapse\<close> raises OverflowError, running no iteration. And the number of iterations is
  the floor of the floating-point product, not of the product of the two numbers: with
  the delay \<open>double_0_3\<close>, the float nearest to 0.3, \<open>elapse\<close> runs 3 iterations, where the
  floor of ten times the delay is 2.
\<close>

theorem elapse_overflow:
  "config demo_env ''simulation_frequency'' = Some (PInt 10) \<and>
   elapse demo_collaborators (2 ^ 1023) False demo_env = Inl OverflowError \<and>
   elapse demo_collaborators double_0_3 False demo_env =
     Inr (demo_env\<lparr>delay := double_0_3, delayed_frequencies := 3,
            road := ((road_step demo_collaborators (3602879701896397 / 2 ^ 55)
                        \<circ> road_act demo_collaborators) ^^ 3) (road demo_env)\<rparr>) \<and>
   \<lfloor>double_0_3 * 10\<rfloor> = (2::int)"
proof -
  have n: "num_of (PInt 10) = Inr 10" by simp
  have e0: "demo_env = (if False
               then set_object demo_env 0 (demo_vehicle\<lparr>action := (action demo_vehicle)(''steering'' \<mapsto> 0)\<rparr>)
               else demo_env)"
    by simp
  have eq: "elapse demo_collaborators d False demo_env =
     (if 2 ^ 1024 \<le> \<bar>round_double (d * 10)\<bar> then Inl OverflowError
      else Inr (demo_env\<lparr>delay := d, delayed_frequencies := py_int (round_double (d * 10)),
              road := ((road_step demo_collaborators (round_double (1 / 10))
                          \<circ> road_act demo_collaborators)
                         ^^ nat \<lfloor>round_double (d * 10)\<rfloor>) (road demo_env)\<rparr>))" for d
    by (rule elapse_eq [OF demo_frequency n float_of_10 _ e0]) simp
  have a: "elapse demo_collaborators (2 ^ 1023) False demo_env = Inl OverflowError"
    unfolding eq round_double_big by simp
  have "\<not> (2::real) ^ 1024 \<le> \<bar>3\<bar>" by simp
  then have b: "elapse demo_collaborators double_0_3 False demo_env =
     Inr (demo_env\<lparr>delay := double_0_3, delayed_frequencies := 3,
            road := ((road_step demo_collaborators (3602879701896397 / 2 ^ 55)
                        \<circ> road_act demo_collaborators) ^^ 3) (road demo_env)\<rparr>)"
    unfolding eq round_double_3 round_double_tenth by (simp add: py_int_def)
  from demo_frequency a b floor_double_0_3 show ?thesis by (intro conjI)
qed

section \<open>Facts about the crashed flag\<close>

lemma bind_err_Inr: "bind_err m f = Inr y \<longleftrightarrow> (\<exists>x. m = Inr x \<and> f x = Inr y)"
  by (cases m) auto

lemma ego_crashed_iff:
  "ego_crashed e \<longleftrightarrow> (\<exists>r v. ego e = Inr (r, v) \<and> crashed v)"
  by (auto simp: ego_crashed_def split: sum.splits)

lemma ego_crashed_ego: "ego e = Inr (r, v) \<Longrightarrow> ego_crashed e = crashed v"
  by (simp add: ego_crashed_def)

lemma rewards_result:
  assumes "rewards e a = Inr (e', ts)"
  shows "\<exists>r v. ego e = Inr (r, v) \<and>
           (e' = e \<or> e' = set_object e r (v\<lparr>crashed := True\<rparr>)) \<and>
           map_of ts ''collision_reward'' = Some (if ego_crashed e' then 1 else 0)"
proof -
  from assms obtain r v where eg: "ego e = Inr (r, v)"
    by (auto simp: rewards_def bind_err_Inr)
  from assms eg obtain rsr x sc where
    "getitem (config e) ''reward_speed_range'' = Inr rsr" "interval_of rsr = Inr x"
    "lmap (speed v * cos (heading v)) x (0, 1) = Inr sc"
    by (auto simp: rewards_def bind_err_Inr Let_def)
  with assms eg have w: "width (lane v) \<noteq> 0"
    by (auto simp: rewards_def Let_def split: if_splits)
  obtain lo hi where x: "x = (lo, hi)" by (cases x)
  have k: "config e ''reward_speed_range'' = Some rsr"
    using \<open>getitem (config e) ''reward_speed_range'' = Inr rsr\<close>
    by (auto simp: getitem_def split: option.splits)
  have ne: "lo \<noteq> hi"
    using \<open>lmap (speed v * cos (heading v)) x (0, 1) = Inr sc\<close> x
    by (auto simp: lmap_def split: if_splits)
  note eq = rewards_eq [OF eg k \<open>interval_of rsr = Inr x\<close> [unfolded x] ne w, of a]
  show ?thesis
  proof (cases "\<bar>heading v\<bar> > pi / 2
      \<or> ((speed v * cos (heading v) - lo) / (hi - lo) < - 0.1 \<and> time e > 1)")
    case True
    with eq assms have e': "e' = set_object e r (v\<lparr>crashed := True\<rparr>)"
      and c: "map_of ts ''collision_reward'' = Some 1"
      by (auto simp: Let_def)
    have "ego_crashed e'"
      unfolding e' using ego_set_object [OF eg, of "v\<lparr>crashed := True\<rparr>"]
      by (simp add: ego_crashed_def)
    with e' c eg show ?thesis by auto
  next
    case False
    with eq assms have e': "e' = e"
      and c: "map_of ts ''collision_reward'' = Some (if crashed v then 1 else 0)"
      by (auto simp: Let_def)
    have "ego_crashed e' = crashed v"
      unfolding e' using eg by (rule ego_crashed_ego)
    with e' c eg show ?thesis by auto
  qed
qed

lemma rewards_keeps:
  assumes "rewards e a = Inr (e', ts)" and "ego_crashed e"
  shows "ego_crashed e' \<and> map_of ts ''collision_reward'' = Some 1"
proof -
  from rewards_result [OF assms(1)] obtain r v where
    eg: "ego e = Inr (r, v)"
    and e': "e' = e \<or> e' = set_object e r (v\<lparr>crashed := True\<rparr>)"
    and c: "map_of ts ''collision_reward'' = Some (if ego_crashed e' then 1 else 0)"
    by blast
  from e' have "ego_crashed e'"
  proof
    assume "e' = e" with assms(2) show ?thesis by simp
  next
    assume "e' = set_object e r (v\<lparr>crashed := True\<rparr>)"
    then show ?thesis
      using ego_set_object [OF eg, of "v\<lparr>crashed := True\<rparr>"]
      by (simp add: ego_crashed_def)
  qed
  with c show ?thesis by simp
qed

lemma ego_crashed_flag:
  "ego_crashed e \<longleftrightarrow>
     (\<exists>r rest. controlled_vehicles e = r # rest \<and>
        map_option crashed (objects (road e) r) = Some True)"
  by (auto simp: ego_crashed_def ego_def split: list.splits option.splits)

lemma keeps_crashed_flag:
  "keeps_crashed f \<Longrightarrow> map_option crashed (objects rd r) = Some True \<Longrightarrow>
     map_option crashed (objects (f rd) r) = Some True"
  unfolding keeps_crashed_def by fastforce

lemma same_crashed_flag:
  "same_crashed f \<Longrightarrow> map_option crashed (objects (f rd) r) = map_option crashed (objects rd r)"
  unfolding same_crashed_def by simp

lemma ticks_keeps:
  assumes "keeps_crashed (road_act C)" and "\<forall>dt. keeps_crashed (road_step C dt)"
    and "ticks C n e = Inr e'"
    and "map_option crashed (objects (road e) r) = Some True"
  shows "map_option crashed (objects (road e') r) = Some True"
  using assms(3,4)
proof (induction n arbitrary: e)
  case 0
  then show ?case by simp
next
  case (Suc n)
  from Suc.prems(1) obtain f where
    t: "ticks C n (e\<lparr>road := road_step C (round_double (1 / f)) (road_act C (road e))\<rparr>) = Inr e'"
    by (auto simp: bind_err_Inr Let_def split: if_splits)
  have "map_option crashed (objects (road_step C (round_double (1 / f)) (road_act C (road e))) r)
      = Some True"
    using assms(1,2) Suc.prems(2) by (simp add: keeps_crashed_flag)
  then show ?case
    using Suc.IH [OF t] by simp
qed

lemma ticks_same:
  assumes "same_crashed (road_act C)" and "\<forall>dt. same_crashed (road_step C dt)"
    and "ticks C n e = Inr e'"
  shows "map_option crashed (objects (road e') r) = map_option crashed (objects (road e) r)"
  using assms(3)
proof (induction n arbitrary: e)
  case 0
  then show ?case by simp
next
  case (Suc n)
  from Suc.prems(1) obtain f where
    t: "ticks C n (e\<lparr>road := road_step C (round_double (1 / f)) (road_act C (road e))\<rparr>) = Inr e'"
    by (auto simp: bind_err_Inr Let_def split: if_splits)
  show ?case
    using Suc.IH [OF t] assms(1,2) by (simp add: same_crashed_flag)
qed

lemma ticks_controlled: "ticks C n e = Inr e' \<Longrightarrow> controlled_vehicles e' = controlled_vehicles e"
proof (induction n arbitrary: e)
  case 0
  then show ?case by simp
next
  case (Suc n)
  from Suc.prems(1) obtain f where
    t: "ticks C n (e\<lparr>road := road_step C (round_double (1 / f)) (road_act C (road e))\<rparr>) = Inr e'"
    by (auto simp: bind_err_Inr Let_def split: if_splits)
  from Suc.IH [OF t] show ?case by simp
qed

lemma elapse_result:
  assumes "elapse C d rs e = Inr e'"
  shows "\<exists>e3 n. ticks C n e3 = Inr e' \<and> controlled_vehicles e3 = controlled_vehicles e \<and>
     (\<forall>r. map_option crashed (objects (road e3) r) = map_option crashed (objects (road e) r))"
proof -
  from assms obtain e2 fv f where
    e2: "(if rs then
           bind_err (ego (e\<lparr>delay := d\<rparr>)) (\<lambda>(r, v).
             Inr (set_object (e\<lparr>delay := d\<rparr>) r (v\<lparr>action := (action v)(''steering'' \<mapsto> 0)\<rparr>)))
         else Inr (e\<lparr>delay := d\<rparr>)) = Inr e2"
    and t: "ticks C (nat (py_int (round_double (delay e2 * f))))
              (e2\<lparr>delayed_frequencies := py_int (round_double (delay e2 * f))\<rparr>) = Inr e'"
    by (auto simp: elapse_def Let_def bind_err_Inr split: if_splits)
  have c: "controlled_vehicles e2 = controlled_vehicles e"
    using e2 by (auto simp: bind_err_Inr set_object_def split: if_splits)
  have o: "map_option crashed (objects (road e2) r) = map_option crashed (objects (road e) r)" for r
    using e2 by (auto simp: bind_err_Inr set_object_def ego_def split: if_splits list.splits option.splits)
  from t c o show ?thesis
    by (intro exI [of _ "e2\<lparr>delayed_frequencies := py_int (round_double (delay e2 * f))\<rparr>"] exI) auto
qed

lemma reward_inherited: "reward inherited_rewards e a \<noteq> Inr y"
  by (simp add: reward_def inherited_rewards_def)

lemma run_call_keeps:
  assumes "keeps_crashed (road_act C)" and "\<forall>dt. keeps_crashed (road_step C dt)"
    and "run_call C c e = Inr e'" and "ego_crashed e"
  shows "ego_crashed e'"
proof (cases c)
  case (Rewards a)
  with assms(3) obtain ts where "rewards e a = Inr (e', ts)"
    by (auto simp: bind_err_Inr)
  from rewards_keeps [OF this assms(4)] show ?thesis by simp
next
  case (Reward a)
  with assms(3) show ?thesis by (simp add: bind_err_Inr reward_inherited)
next
  case IsTerminated
  with assms(3) show ?thesis by (simp add: is_terminated_def)
next
  case IsTruncated
  with assms(3) show ?thesis by (simp add: is_truncated_def)
next
  case (Elapse d rs)
  with assms(3) have "elapse C d rs e = Inr e'" by simp
  from elapse_result [OF this] obtain e3 n where
    t: "ticks C n e3 = Inr e'" and c: "controlled_vehicles e3 = controlled_vehicles e"
    and o: "\<forall>r. map_option crashed (objects (road e3) r) = map_option crashed (objects (road e) r)"
    by blast
  from assms(4) obtain r rest where
    r: "controlled_vehicles e = r # rest" "map_option crashed (objects (road e) r) = Some True"
    unfolding ego_crashed_flag by blast
  with o have "map_option crashed (objects (road e3) r) = Some True" by simp
  from ticks_keeps [OF assms(1,2) t this] ticks_controlled [OF t] c r(1)
  show ?thesis unfolding ego_crashed_flag by simp
next
  case (ClockAdvance dt)
  with assms(3,4) show ?thesis by (auto simp: ego_crashed_flag)
qed

lemma run_calls_keeps:
  assumes "keeps_crashed (road_act C)" and "\<forall>dt. keeps_crashed (road_step C dt)"
    and "run_calls C cs e = Inr e'" and "ego_crashed e"
  shows "ego_crashed e'"
  using assms(3,4)
proof (induction cs arbitrary: e)
  case Nil
  then show ?case by simp
next
  case (Cons c cs)
  from Cons.prems(1) obtain e1 where
    a: "run_call C c e = Inr e1" and b: "run_calls C cs e1 = Inr e'"
    by (auto simp: bind_err_Inr)
  from run_call_keeps [OF assms(1,2) a Cons.prems(2)] have "ego_crashed e1" .
  with b show ?case by (rule Cons.IH)
qed

lemma run_call_same:
  assumes "same_crashed (road_act C)" and "\<forall>dt. same_crashed (road_step C dt)"
    and "\<forall>a. c \<noteq> Rewards a \<and> c \<noteq> Reward a"
    and "run_call C c e = Inr e'"
  shows "ego_crashed e' = ego_crashed e"
proof (cases c)
  case (Rewards a)
  with assms(3) show ?thesis by simp
next
  case (Reward a)
  with assms(3) show ?thesis by simp
next
  case IsTerminated
  with assms(4) show ?thesis by (simp add: is_terminated_def)
next
  case IsTruncated
  with assms(4) show ?thesis by (simp add: is_truncated_def)
next
  case (Elapse d rs)
  with assms(4) have "elapse C d rs e = Inr e'" by simp
  from elapse_result [OF this] obtain e3 n where
    t: "ticks C n e3 = Inr e'" and c: "controlled_vehicles e3 = controlled_vehicles e"
    and o: "\<forall>r. map_option crashed (objects (road e3) r) = map_option crashed (objects (road e) r)"
    by blast
  from ticks_same [OF assms(1,2) t] ticks_controlled [OF t] c o
  show ?thesis unfolding ego_crashed_flag by simp
next
  case (ClockAdvance dt)
  with assms(4) show ?thesis by (auto simp: ego_crashed_flag)
qed

text \<open>
  Claim C3. In a call of \<open>rewards\<close> the crashed flag of the ego vehicle is set to true
  exactly when \<open>|heading| > pi / 2\<close>, or when the scaled speed (the forward speed mapped
  affinely from the configured range to [0, 1]) is below \<open>- 0.1\<close> and the elapsed time
  is above 1; nothing else of the state changes. The collision term of that call is 1
  if the flag is then set and 0 otherwise. No call of this file clears the flag: once
  it is set, it stays set through every later sequence of calls (with a physics that
  clears no flag), and every later call of \<open>rewards\<close> that returns gives the collision
  term 1. The calls other than \<open>rewards\<close> and \<open>reward\<close> leave the flag as it is, when the
  physics they run leaves it as it is. A reset, which makes new vehicles, is not among
  the calls.
\<close>

theorem crash_check_sets_flag:
  assumes "ego e = Inr (r, v)"
    and "config e ''reward_speed_range'' = Some rsr"
    and "interval_of rsr = Inr (lo, hi)"
    and "lo \<noteq> hi"
    and "width (lane v) \<noteq> 0"
    and "hit \<longleftrightarrow> \<bar>heading v\<bar> > pi / 2
          \<or> ((speed v * cos (heading v) - lo) / (hi - lo) < - 0.1 \<and> time e > 1)"
  shows "\<exists>e' ts.
      rewards e a = Inr (e', ts) \<and>
      e' = (if hit then set_object e r (v\<lparr>crashed := True\<rparr>) else e) \<and>
      ego_crashed e' = (crashed v \<or> hit) \<and>
      map_of ts ''collision_reward'' = Some (if crashed v \<or> hit then 1 else 0) \<and>
      (\<forall>C cs e2.
         keeps_crashed (road_act C) \<and> (\<forall>dt. keeps_crashed (road_step C dt)) \<and>
         (crashed v \<or> hit) \<and> run_calls C cs e' = Inr e2
         \<longrightarrow> ego_crashed e2 \<and>
             (\<forall>a2 e3 ts2. rewards e2 a2 = Inr (e3, ts2)
                \<longrightarrow> map_of ts2 ''collision_reward'' = Some 1 \<and> ego_crashed e3)) \<and>
      (\<forall>C c e1 e2.
         same_crashed (road_act C) \<and> (\<forall>dt. same_crashed (road_step C dt)) \<and>
         (\<forall>a. c \<noteq> Rewards a \<and> c \<noteq> Reward a) \<and> run_call C c e1 = Inr e2
         \<longrightarrow> ego_crashed e2 = ego_crashed e1)"
proof -
  define e' where "e' = (if hit then set_object e r (v\<lparr>crashed := True\<rparr>) else e)"
  have upd: "v\<lparr>crashed := crashed v \<or> hit\<rparr> = (if hit then v\<lparr>crashed := True\<rparr> else v)"
    by simp
  obtain ts where run: "rewards e a = Inr (e', ts)"
    and col: "map_of ts ''collision_reward'' = Some (if crashed v \<or> hit then 1 else 0)"
    unfolding rewards_eq [OF assms(1-5)] Let_def assms(6) [symmetric] e'_def
    by (cases hit) simp_all
  have eg: "ego e' = Inr (r, if hit then v\<lparr>crashed := True\<rparr> else v)"
    using assms(1) by (simp add: e'_def ego_set_object)
  then have flag: "ego_crashed e' = (crashed v \<or> hit)"
    by (simp add: ego_crashed_def)
  have later: "ego_crashed e2 \<and>
             (\<forall>a2 e3 ts2. rewards e2 a2 = Inr (e3, ts2)
                \<longrightarrow> map_of ts2 ''collision_reward'' = Some 1 \<and> ego_crashed e3)"
    if h: "keeps_crashed (road_act C) \<and> (\<forall>dt. keeps_crashed (road_step C dt)) \<and>
         (crashed v \<or> hit) \<and> run_calls C cs e' = Inr e2" for C cs e2
  proof -
    from h flag have "ego_crashed e'" by simp
    with h have c2: "ego_crashed e2"
      using run_calls_keeps [of C cs e' e2] by blast
    then show ?thesis using rewards_keeps by blast
  qed
  have only: "ego_crashed e2 = ego_crashed e1"
    if h: "same_crashed (road_act C) \<and> (\<forall>dt. same_crashed (road_step C dt)) \<and>
         (\<forall>a. c \<noteq> Rewards a \<and> c \<noteq> Reward a) \<and> run_call C c e1 = Inr e2" for C c e1 e2
    using h run_call_same [of C c e1 e2] by blast
  show ?thesis
    apply (rule exI [of _ e'])
    apply (rule exI [of _ ts])
    apply (intro conjI)
         apply (rule run)
        apply (rule e'_def)
       apply (rule flag)
      apply (rule col)
    using later apply blast
    using only apply blast
    done
qed

lemma demo_keeps:
  "keeps_crashed (road_act demo_collaborators)"
  "\<forall>dt. keeps_crashed (road_step demo_collaborators dt)"
  by (auto simp: keeps_crashed_def demo_collaborators_def)

lemma demo_spun_ego: "ego demo_spun = Inr (0, demo_vehicle\<lparr>heading := 2\<rparr>)"
  by (simp add: demo_spun_def ego_set_object demo_ego)

lemma demo_spun_config: "config demo_spun = default_config demo_base"
  by (simp add: demo_spun_def demo_config)

theorem crash_check_sets_flag_witness:
  "ego demo_spun = Inr (0, demo_vehicle\<lparr>heading := 2\<rparr>) \<and>
   \<not> ego_crashed demo_spun \<and>
   (\<exists>e' ts e2.
      rewards demo_spun (Continuous [0, 0]) = Inr (e', ts) \<and>
      ego_crashed e' \<and> map_of ts ''collision_reward'' = Some 1 \<and>
      run_calls demo_collaborators [Elapse 0 False, ClockAdvance 1] e' = Inr e2 \<and>
      ego_crashed e2)"
proof -
  let ?v = "demo_vehicle\<lparr>heading := 2\<rparr>"
  have rsr: "config demo_spun ''reward_speed_range'' = Some (PList [PInt 10, PInt 25])"
    by (simp add: demo_spun_config default_config_values)
  have iv: "interval_of (PList [PInt 10, PInt 25]) = Inr (10, 25)" by simp
  have ne: "(10::real) \<noteq> 25" by simp
  have wd: "width (lane ?v) \<noteq> 0" by (simp add: demo_vehicle_def demo_lane_def)
  have "pi / 2 < 2" using pi_less_4 by simp
  then have hit: "True \<longleftrightarrow> \<bar>heading ?v\<bar> > pi / 2
          \<or> ((speed ?v * cos (heading ?v) - 10) / (25 - 10) < - 0.1 \<and> time demo_spun > 1)"
    by simp
  have before: "\<not> ego_crashed demo_spun"
    by (simp add: ego_crashed_def demo_spun_ego demo_vehicle_def)
  from crash_check_sets_flag [OF demo_spun_ego rsr iv ne wd hit, of "Continuous [0, 0]"]
  obtain e' ts where
    run: "rewards demo_spun (Continuous [0, 0]) = Inr (e', ts)"
    and e': "e' = set_object demo_spun 0 (?v\<lparr>crashed := True\<rparr>)"
    and flag: "ego_crashed e'"
    and col: "map_of ts ''collision_reward'' = Some 1"
    and later: "\<forall>C cs e2.
         keeps_crashed (road_act C) \<and> (\<forall>dt. keeps_crashed (road_step C dt)) \<and>
         (crashed ?v \<or> True) \<and> run_calls C cs e' = Inr e2
         \<longrightarrow> ego_crashed e2 \<and>
             (\<forall>a2 e3 ts2. rewards e2 a2 = Inr (e3, ts2)
                \<longrightarrow> map_of ts2 ''collision_reward'' = Some 1 \<and> ego_crashed e3)"
    by auto
  define e1 where "e1 = e'\<lparr>delay := 0, delayed_frequencies := 0\<rparr>"
  have "config e' ''simulation_frequency'' = Some (PInt 10)"
    by (simp add: e' demo_spun_config default_config_def demo_base_def map_add_def)
  then have el: "elapse demo_collaborators 0 False e' = Inr e1"
    by (simp add: elapse_def getitem_def round_double_10 round_double_0 py_int_def e1_def)
  have calls: "run_calls demo_collaborators [Elapse 0 False, ClockAdvance 1] e' =
      Inr (e1\<lparr>time := time e1 + 1\<rparr>)"
    by (simp add: el)
  with later demo_keeps have "ego_crashed (e1\<lparr>time := time e1 + 1\<rparr>)"
    by blast
  with run flag col calls before demo_spun_ego show ?thesis by blast
qed

section \<open>Facts about the scene populator\<close>

text \<open>
  The inner loop appends its new vehicles, under the next unused references, and
  leaves the objects made before it as they are.
\<close>

lemma spawn_traffic_result:
  assumes "c ''vehicles_density'' = Some dv" and "num_of dv = Inr density" and "density \<noteq> 0"
  shows "\<exists>rd'. spawn_traffic tc c k rd = Inr rd' \<and>
      vehicles rd' = vehicles rd @ [next_ref rd..<next_ref rd + k] \<and>
      next_ref rd' = next_ref rd + k \<and>
      all_side_lanes rd' = all_side_lanes rd \<and>
      (\<forall>r < next_ref rd. objects rd' r = objects rd r) \<and>
      (\<forall>r. next_ref rd \<le> r \<and> r < next_ref rd + k \<longrightarrow>
           (\<exists>v g. objects rd' r = Some (fst (tc_randomize_behavior tc v g))))"
proof (induction k arbitrary: rd)
  case 0
  then show ?case by auto
next
  case (Suc k)
  obtain v g where cr: "tc_create_random tc rd (1 / density) = (v, g)"
    by (cases "tc_create_random tc rd (1 / density)")
  obtain v' g' where rb: "tc_randomize_behavior tc v g = (v', g')"
    by (cases "tc_randomize_behavior tc v g")
  define rd1 where "rd1 = rd\<lparr>np_random := g', objects := (objects rd)(next_ref rd \<mapsto> v'),
      next_ref := Suc (next_ref rd), vehicles := vehicles rd @ [next_ref rd]\<rparr>"
  have step: "spawn_traffic tc c (Suc k) rd = spawn_traffic tc c k rd1"
    using assms by (simp add: getitem_def cr rb new_object_def rd1_def)
  from Suc.IH [of rd1] obtain rd' where
    run: "spawn_traffic tc c k rd1 = Inr rd'"
    and vs: "vehicles rd' = vehicles rd1 @ [next_ref rd1..<next_ref rd1 + k]"
    and nx: "next_ref rd' = next_ref rd1 + k"
    and sl: "all_side_lanes rd' = all_side_lanes rd1"
    and old: "\<forall>r < next_ref rd1. objects rd' r = objects rd1 r"
    and new: "\<forall>r. next_ref rd1 \<le> r \<and> r < next_ref rd1 + k \<longrightarrow>
           (\<exists>v g. objects rd' r = Some (fst (tc_randomize_behavior tc v g)))"
    by blast
  have a: "vehicles rd' = vehicles rd @ [next_ref rd..<next_ref rd + Suc k]"
    using vs by (simp add: rd1_def upt_conv_Cons)
  have b: "next_ref rd' = next_ref rd + Suc k"
    using nx by (simp add: rd1_def)
  have c: "all_side_lanes rd' = all_side_lanes rd"
    using sl by (simp add: rd1_def)
  have d: "\<forall>r < next_ref rd. objects rd' r = objects rd r"
    using old by (simp add: rd1_def)
  have here: "objects rd' (next_ref rd) = Some (fst (tc_randomize_behavior tc v g))"
    using old by (simp add: rd1_def rb)
  have e: "\<forall>r. next_ref rd \<le> r \<and> r < next_ref rd + Suc k \<longrightarrow>
           (\<exists>v g. objects rd' r = Some (fst (tc_randomize_behavior tc v g)))"
  proof (intro allI impI)
    fix r assume r: "next_ref rd \<le> r \<and> r < next_ref rd + Suc k"
    show "\<exists>v g. objects rd' r = Some (fst (tc_randomize_behavior tc v g))"
    proof (cases "r = next_ref rd")
      case True
      with here show ?thesis by blast
    next
      case False
      with r have "next_ref rd1 \<le> r \<and> r < next_ref rd1 + k"
        by (simp add: rd1_def)
      with new show ?thesis by blast
    qed
  qed
  from step run a b c d e show ?case by simp
qed

text \<open>The outer loop makes one group after the other, in the order of the list.\<close>

lemma populate_result:
  assumes "config e ''initial_lane_id'' = Some li" and "config e ''ego_spacing'' = Some sp"
    and "config e ''vehicles_density'' = Some dv" and "num_of dv = Inr density"
    and "density \<noteq> 0"
  shows "\<exists>e'. populate C tc bins e = Inr e' \<and>
      vehicles (road e') =
        vehicles (road e) @ concat (map (\<lambda>(c, ts). c # ts) (layout (next_ref (road e)) bins)) \<and>
      controlled_vehicles e' =
        controlled_vehicles e @ map fst (layout (next_ref (road e)) bins) \<and>
      next_ref (road e') = next_ref (road e) + length bins + sum_list bins \<and>
      config e' = config e \<and>
      (\<forall>r < next_ref (road e). objects (road e') r = objects (road e) r) \<and>
      (\<forall>g \<in> set (layout (next_ref (road e)) bins).
          (\<exists>p h s. objects (road e') (fst g) = Some (vehicle_class C p h s)) \<and>
          (\<forall>t \<in> set (snd g).
              \<exists>v gs. objects (road e') t = Some (fst (tc_randomize_behavior tc v gs))))"
  using assms(1-3)
proof (induction bins arbitrary: e)
  case Nil
  then show ?case by simp
next
  case (Cons k ks)
  define s where "s = next_ref (road e)"
  obtain v0 g where cr: "create_random C (road e) 25 li sp = (v0, g)"
    by (cases "create_random C (road e) 25 li sp")
  define vc where "vc = vehicle_class C (position v0) (heading v0) (speed v0)"
  define rd1 where "rd1 = (road e)\<lparr>np_random := g, objects := (objects (road e))(s \<mapsto> vc),
      next_ref := Suc s, vehicles := vehicles (road e) @ [s]\<rparr>"
  from spawn_traffic_result [where c = "config e" and tc = tc and k = k and rd = rd1,
      OF Cons.prems(3) assms(4,5)]
  obtain rd2 where
    sp: "spawn_traffic tc (config e) k rd1 = Inr rd2"
    and vs2: "vehicles rd2 = vehicles rd1 @ [next_ref rd1..<next_ref rd1 + k]"
    and nx2: "next_ref rd2 = next_ref rd1 + k"
    and old2: "\<forall>r < next_ref rd1. objects rd2 r = objects rd1 r"
    and new2: "\<forall>r. next_ref rd1 \<le> r \<and> r < next_ref rd1 + k \<longrightarrow>
           (\<exists>v g. objects rd2 r = Some (fst (tc_randomize_behavior tc v g)))"
    by blast
  define e1 where "e1 = e\<lparr>controlled_vehicles := controlled_vehicles e @ [s], road := rd2\<rparr>"
  have step: "populate C tc (k # ks) e = populate C tc ks e1"
    using Cons.prems(1,2) sp
    by (simp add: getitem_def cr new_object_def rd1_def e1_def s_def vc_def)
  have cfg1: "config e1 = config e" by (simp add: e1_def)
  have nx1: "next_ref (road e1) = Suc s + k"
    using nx2 by (simp add: e1_def rd1_def)
  from Cons.IH [of e1] Cons.prems cfg1
  obtain e' where
    run: "populate C tc ks e1 = Inr e'"
    and vs: "vehicles (road e') =
        vehicles (road e1) @ concat (map (\<lambda>(c, ts). c # ts) (layout (next_ref (road e1)) ks))"
    and cs: "controlled_vehicles e' =
        controlled_vehicles e1 @ map fst (layout (next_ref (road e1)) ks)"
    and nx: "next_ref (road e') = next_ref (road e1) + length ks + sum_list ks"
    and cfg: "config e' = config e1"
    and old: "\<forall>r < next_ref (road e1). objects (road e') r = objects (road e1) r"
    and grp: "\<forall>g \<in> set (layout (next_ref (road e1)) ks).
          (\<exists>p h s. objects (road e') (fst g) = Some (vehicle_class C p h s)) \<and>
          (\<forall>t \<in> set (snd g).
              \<exists>v gs. objects (road e') t = Some (fst (tc_randomize_behavior tc v gs)))"
    by auto
  have a: "vehicles (road e') =
        vehicles (road e) @ concat (map (\<lambda>(c, ts). c # ts) (layout s (k # ks)))"
    using vs vs2 nx1 by (simp add: e1_def rd1_def)
  have b: "controlled_vehicles e' = controlled_vehicles e @ map fst (layout s (k # ks))"
    using cs nx1 by (simp add: e1_def)
  have c: "next_ref (road e') = s + length (k # ks) + sum_list (k # ks)"
    using nx nx1 by simp
  have d: "config e' = config e"
    using cfg cfg1 by simp
  have f: "\<forall>r < s. objects (road e') r = objects (road e) r"
  proof (intro allI impI)
    fix r assume r: "r < s"
    then have "objects (road e') r = objects (road e1) r" using old nx1 by simp
    also have "\<dots> = objects rd1 r" using old2 r by (simp add: e1_def rd1_def)
    also have "\<dots> = objects (road e) r" using r by (simp add: rd1_def)
    finally show "objects (road e') r = objects (road e) r" .
  qed
  have head: "objects (road e') s = Some vc"
  proof -
    have "objects (road e') s = objects (road e1) s" using old nx1 by simp
    also have "\<dots> = objects rd1 s" using old2 by (simp add: e1_def rd1_def)
    also have "\<dots> = Some vc" by (simp add: rd1_def)
    finally show ?thesis .
  qed
  have tail: "\<exists>v gs. objects (road e') t = Some (fst (tc_randomize_behavior tc v gs))"
    if t: "t \<in> set [Suc s..<Suc s + k]" for t
  proof -
    from t have tl: "Suc s \<le> t" "t < Suc s + k" by auto
    then have "t < next_ref (road e1)" using nx1 by simp
    then have "objects (road e') t = objects (road e1) t" using old by blast
    also have "\<dots> = objects rd2 t" by (simp add: e1_def)
    finally have eq: "objects (road e') t = objects rd2 t" .
    have "next_ref rd1 \<le> t \<and> t < next_ref rd1 + k"
      using tl by (simp add: rd1_def)
    with new2 eq show ?thesis by simp
  qed
  have h: "\<forall>g \<in> set (layout s (k # ks)).
          (\<exists>p h s. objects (road e') (fst g) = Some (vehicle_class C p h s)) \<and>
          (\<forall>t \<in> set (snd g).
              \<exists>v gs. objects (road e') t = Some (fst (tc_randomize_behavior tc v gs)))"
  proof
    fix g assume "g \<in> set (layout s (k # ks))"
    then consider "g = (s, [Suc s..<Suc s + k])" | "g \<in> set (layout (next_ref (road e1)) ks)"
      using nx1 by auto
    then show "(\<exists>p h s. objects (road e') (fst g) = Some (vehicle_class C p h s)) \<and>
          (\<forall>t \<in> set (snd g).
              \<exists>v gs. objects (road e') t = Some (fst (tc_randomize_behavior tc v gs)))"
    proof cases
      case 1
      have hd: "\<exists>p h s'. objects (road e') s = Some (vehicle_class C p h s')"
        unfolding head vc_def by blast
      have fg: "fst g = s" and sg: "snd g = [Suc s..<Suc s + k]"
        by (simp_all only: 1 fst_conv snd_conv)
      show ?thesis
        unfolding fg sg using hd tail by blast
    next
      case 2
      with grp show ?thesis by blast
    qed
  qed
  from step run a b c d f h show ?case unfolding s_def by simp
qed

lemma layout_concat:
  "concat (map (\<lambda>(c, ts). c # ts) (layout s bins)) = [s..<s + length bins + sum_list bins]"
proof (induction bins arbitrary: s)
  case Nil
  then show ?case by simp
next
  case (Cons k ks)
  have e: "s + length (k # ks) + sum_list (k # ks) = (Suc s + k) + (length ks + sum_list ks)"
    by simp
  have "[s..<(Suc s + k) + (length ks + sum_list ks)] =
      [s..<Suc s + k] @ [Suc s + k..<(Suc s + k) + (length ks + sum_list ks)]"
    by (rule upt_add_eq_append) simp
  moreover have "[s..<Suc s + k] = s # [Suc s..<Suc s + k]"
    by (simp add: upt_conv_Cons)
  ultimately have "[s..<s + length (k # ks) + sum_list (k # ks)] =
      s # [Suc s..<Suc s + k] @ [Suc s + k..<Suc s + k + length ks + sum_list ks]"
    unfolding e by (simp add: add.assoc)
  then show ?case
    using Cons.IH [of "Suc s + k"] by simp
qed

lemma layout_length: "length (layout s bins) = length bins"
  by (induction bins arbitrary: s) simp_all

lemma layout_sizes: "map (\<lambda>g. length (snd g)) (layout s bins) = bins"
  by (induction bins arbitrary: s) simp_all

lemma near_split_result:
  assumes "0 \<le> x" and "0 < n"
  shows "\<exists>bins. near_split x n = Inr bins \<and> length bins = nat n \<and> sum_list bins = nat x \<and>
      (\<forall>b \<in> set bins. b = nat (x div n) \<or> b = nat (x div n) + 1)"
proof -
  define q where "q = nat (x div n)"
  define m where "m = nat (x mod n)"
  define bins where "bins = replicate m (q + 1) @ replicate (nat (n - x mod n)) q"
  have run: "near_split x n = Inr bins"
    using assms by (simp add: near_split_def bins_def q_def m_def)
  have m0: "0 \<le> x mod n" and mn: "x mod n < n"
    using assms by simp_all
  have q0: "0 \<le> x div n"
    using assms by (simp add: pos_imp_zdiv_nonneg_iff)
  have len: "length bins = nat n"
    using m0 mn unfolding bins_def m_def by (simp add: nat_add_distrib [symmetric])
  have "int (sum_list bins) = int m * (int q + 1) + (n - x mod n) * int q"
    using m0 mn by (simp add: bins_def sum_list_replicate algebra_simps)
  also have "\<dots> = x mod n * (x div n + 1) + (n - x mod n) * (x div n)"
    using m0 q0 by (simp add: m_def q_def)
  also have "\<dots> = n * (x div n) + x mod n"
    by (simp add: algebra_simps)
  also have "\<dots> = x" by simp
  finally have sum: "sum_list bins = nat x" by simp
  have mem: "\<forall>b \<in> set bins. b = nat (x div n) \<or> b = nat (x div n) + 1"
    by (auto simp: bins_def q_def)
  from run len sum mem show ?thesis by blast
qed

text \<open>
  Claim C7. After a reset, for a configuration with at least one controlled vehicle
  and a number of traffic vehicles that is not negative, \<^verbatim>\<open>road.vehicles\<close> holds exactly
  \<open>controlled_vehicles + vehicles_count\<close> vehicles, each once. It is the sequence of the
  groups, each a controlled vehicle (an object made by the vehicle class of the action
  type) followed by its traffic vehicles (objects made by the traffic class and
  randomised); the list of controlled vehicles has length \<open>controlled_vehicles\<close> and is
  the controlled vehicles of the groups, in the order of the groups; and the traffic
  vehicles are split as evenly as possible, every group having the quotient of the
  two counts or one more, \<open>vehicles_count\<close> in all.
\<close>

theorem reset_population:
  assumes "config e ''lanes_count'' = Some lc" and "int_of lc = Inr lanes"
    and "config e ''show_trajectories'' = Some st"
    and "config e ''other_vehicles_type'' = Some (PStr path)"
    and "config e ''vehicles_count'' = Some vc" and "int_of vc = Inr x" and "0 \<le> x"
    and "config e ''controlled_vehicles'' = Some cv" and "int_of cv = Inr n" and "0 < n"
    and "config e ''initial_lane_id'' = Some li"
    and "config e ''ego_spacing'' = Some sp"
    and "config e ''vehicles_density'' = Some dv" and "num_of dv = Inr density"
    and "density \<noteq> 0"
  shows "\<exists>e' groups.
      reset C e = Inr e' \<and>
      vehicles (road e') = concat (map (\<lambda>(c, ts). c # ts) groups) \<and>
      controlled_vehicles e' = map fst groups \<and>
      length (vehicles (road e')) = nat (n + x) \<and>
      distinct (vehicles (road e')) \<and>
      length (controlled_vehicles e') = nat n \<and>
      sum_list (map (\<lambda>g. length (snd g)) groups) = nat x \<and>
      (\<forall>g \<in> set groups.
         (length (snd g) = nat (x div n) \<or> length (snd g) = nat (x div n) + 1) \<and>
         (\<exists>p h s. objects (road e') (fst g) = Some (vehicle_class C p h s)) \<and>
         (\<forall>t \<in> set (snd g).
            \<exists>v gs. objects (road e') t =
              Some (fst (tc_randomize_behavior (class_from_path C path) v gs))))"
proof -
  define rd0 where "rd0 = \<lparr>vehicles = [], objects = Map.empty, next_ref = 0,
      np_random = np_random (road e), all_side_lanes = straight_side_lanes lanes\<rparr>"
  define e1 where "e1 = e\<lparr>road := rd0\<rparr>"
  define e2 where "e2 = e1\<lparr>controlled_vehicles := []\<rparr>"
  define tc where "tc = class_from_path C path"
  have cr: "create_road e = Inr e1"
    using assms(1-3) by (simp add: create_road_def getitem_def e1_def rd0_def)
  from near_split_result [OF assms(7,10)] obtain bins where
    ns: "near_split x n = Inr bins" and len: "length bins = nat n"
    and sum: "sum_list bins = nat x"
    and mem: "\<forall>b \<in> set bins. b = nat (x div n) \<or> b = nat (x div n) + 1"
    by blast
  have cv: "create_vehicles C e1 = populate C tc bins e2"
    using assms(4,5,6,8,9) ns
    by (simp add: create_vehicles_def getitem_def e1_def e2_def tc_def)
  have k: "config e2 ''initial_lane_id'' = Some li" "config e2 ''ego_spacing'' = Some sp"
    "config e2 ''vehicles_density'' = Some dv"
    using assms(11-13) by (simp_all add: e2_def e1_def)
  from populate_result [where e = e2 and C = C and tc = tc and bins = bins, OF k assms(14,15)]
  obtain e' where
    run: "populate C tc bins e2 = Inr e'"
    and vs: "vehicles (road e') =
        vehicles (road e2) @ concat (map (\<lambda>(c, ts). c # ts) (layout (next_ref (road e2)) bins))"
    and cs: "controlled_vehicles e' =
        controlled_vehicles e2 @ map fst (layout (next_ref (road e2)) bins)"
    and grp: "\<forall>g \<in> set (layout (next_ref (road e2)) bins).
          (\<exists>p h s. objects (road e') (fst g) = Some (vehicle_class C p h s)) \<and>
          (\<forall>t \<in> set (snd g).
              \<exists>v gs. objects (road e') t = Some (fst (tc_randomize_behavior tc v gs)))"
    by blast
  have r0: "vehicles (road e2) = []" "next_ref (road e2) = 0" "controlled_vehicles e2 = []"
    by (simp_all add: e2_def e1_def rd0_def)
  define groups where "groups = layout 0 bins"
  have a: "reset C e = Inr e'"
    by (simp add: reset_def cr cv run)
  have b: "vehicles (road e') = concat (map (\<lambda>(c, ts). c # ts) groups)"
    using vs by (simp add: r0 groups_def)
  have c: "controlled_vehicles e' = map fst groups"
    using cs by (simp add: r0 groups_def)
  have all: "vehicles (road e') = [0..<length bins + sum_list bins]"
    unfolding b groups_def layout_concat by simp
  have "nat n + nat x = nat (n + x)"
    using assms(7,10) by (simp add: nat_add_distrib)
  then have d: "length (vehicles (road e')) = nat (n + x)"
    unfolding all by (simp add: len sum)
  have f: "distinct (vehicles (road e'))"
    unfolding all by simp
  have g: "length (controlled_vehicles e') = nat n"
    unfolding c groups_def by (simp add: layout_length len)
  have sizes: "map (\<lambda>g. length (snd g)) groups = bins"
    unfolding groups_def by (rule layout_sizes)
  have h: "sum_list (map (\<lambda>g. length (snd g)) groups) = nat x"
    unfolding sizes by (rule sum)
  have i: "\<forall>g \<in> set groups.
         (length (snd g) = nat (x div n) \<or> length (snd g) = nat (x div n) + 1) \<and>
         (\<exists>p h s. objects (road e') (fst g) = Some (vehicle_class C p h s)) \<and>
         (\<forall>t \<in> set (snd g).
            \<exists>v gs. objects (road e') t =
              Some (fst (tc_randomize_behavior (class_from_path C path) v gs)))"
  proof
    fix g assume g: "g \<in> set groups"
    then have "length (snd g) \<in> set (map (\<lambda>g. length (snd g)) groups)"
      by simp
    then have "length (snd g) \<in> set bins"
      unfolding sizes .
    with mem have "length (snd g) = nat (x div n) \<or> length (snd g) = nat (x div n) + 1"
      by blast
    moreover from g grp have "(\<exists>p h s. objects (road e') (fst g) = Some (vehicle_class C p h s)) \<and>
          (\<forall>t \<in> set (snd g).
              \<exists>v gs. objects (road e') t = Some (fst (tc_randomize_behavior tc v gs)))"
      by (simp add: r0 groups_def)
    ultimately show "(length (snd g) = nat (x div n) \<or> length (snd g) = nat (x div n) + 1) \<and>
         (\<exists>p h s. objects (road e') (fst g) = Some (vehicle_class C p h s)) \<and>
         (\<forall>t \<in> set (snd g).
            \<exists>v gs. objects (road e') t =
              Some (fst (tc_randomize_behavior (class_from_path C path) v gs)))"
      unfolding tc_def by blast
  qed
  from a b c d f g h i show ?thesis by blast
qed

lemma demo_fleet_config:
  "config demo_fleet ''lanes_count'' = Some (PInt 4)"
  "config demo_fleet ''show_trajectories'' = Some (PBool False)"
  "config demo_fleet ''other_vehicles_type'' = Some (PStr ''highway_env.vehicle.behavior.IDMVehicle'')"
  "config demo_fleet ''vehicles_count'' = Some (PInt 20)"
  "config demo_fleet ''controlled_vehicles'' = Some (PInt 3)"
  "config demo_fleet ''initial_lane_id'' = Some PNone"
  "config demo_fleet ''ego_spacing'' = Some (PInt 2)"
  "config demo_fleet ''vehicles_density'' = Some (PFloat 0.7)"
  by (simp_all add: demo_fleet_def demo_config default_config_def demo_base_def map_add_def)

theorem reset_population_witness:
  "config demo_fleet ''vehicles_count'' = Some (PInt 20) \<and>
   config demo_fleet ''controlled_vehicles'' = Some (PInt 3) \<and>
   (\<exists>e'. reset demo_collaborators demo_fleet = Inr e' \<and>
      length (vehicles (road e')) = 23 \<and> distinct (vehicles (road e')) \<and>
      length (controlled_vehicles e') = 3 \<and>
      set (controlled_vehicles e') \<subseteq> set (vehicles (road e')))"
proof -
  have i: "int_of (PInt 4) = Inr 4" "int_of (PInt 20) = Inr 20" "int_of (PInt 3) = Inr 3"
    "num_of (PFloat 0.7) = Inr 0.7"
    by simp_all
  have p: "(0::int) \<le> 20" "(0::int) < 3" "(0.7::real) \<noteq> 0"
    by simp_all
  from reset_population [OF demo_fleet_config(1) i(1) demo_fleet_config(2,3,4) i(2) p(1)
      demo_fleet_config(5) i(3) p(2) demo_fleet_config(6,7,8) i(4) p(3), of demo_collaborators]
  obtain e' groups where
    "reset demo_collaborators demo_fleet = Inr e'"
    "vehicles (road e') = concat (map (\<lambda>(c, ts). c # ts) groups)"
    "controlled_vehicles e' = map fst groups"
    "length (vehicles (road e')) = nat (3 + 20)"
    "distinct (vehicles (road e'))"
    "length (controlled_vehicles e') = nat 3"
    by blast
  moreover from this have "set (controlled_vehicles e') \<subseteq> set (vehicles (road e'))"
    by auto
  ultimately show ?thesis using demo_fleet_config(4,5) by auto
qed

end
